theory Spec2Isabelle
  imports Complex_Main
begin

section \<open>The rough Heston pricing engine of hestonClass.ipynb\<close>

text \<open>
  The notebook computes with IEEE double-precision floats. This development reads every
  float as the real (or complex) number it stands for: rounding, overflow (with Python's
  OverflowError) and underflow are not modelled. Every other exception that the modelled
  code can raise on floats, ints, lists and dicts is a branch of the model. Where the float
  computation leaves the finite reals without raising (a power of a negative base that
  Python returns as a complex number, an \<open>inf\<close> or \<open>nan\<close> of numpy or scipy), the model
  stops with a marker (\<open>ComplexPower\<close>, \<open>NonFinite\<close>) and says nothing about how the Python
  continues.
\<close>

subsection \<open>Exceptions and sequencing\<close>

datatype error =
    ZeroDivisionError
  | ValueError
  | KeyError
  | IndexError
  | AttributeError
  | RuntimeError
  | ComplexPower
  | NonFinite

text \<open>Statement sequencing: the first exception ends the computation.\<close>

fun and_then :: "error + 'a \<Rightarrow> ('a \<Rightarrow> error + 'b) \<Rightarrow> error + 'b" where
  "and_then (Inl err) f = Inl err"
| "and_then (Inr v) f = f v"

text \<open>\<open>for i in xs: body\<close>, the loop state passed from one iteration to the next.\<close>

fun for_each :: "'i list \<Rightarrow> ('i \<Rightarrow> 's \<Rightarrow> error + 's) \<Rightarrow> 's \<Rightarrow> error + 's" where
  "for_each [] body s = Inr s"
| "for_each (i # is) body s = and_then (body i s) (for_each is body)"

subsection \<open>Library arithmetic: \<open>**\<close>, \<open>scipy.special.gamma\<close>, numpy arrays\<close>

text \<open>
  The value of Python's \<open>x ** y\<close> on floats where it is a float: \<open>x ** 0.0\<close> is \<open>1.0\<close> for
  every \<open>x\<close> (also \<open>0.0 ** 0.0\<close>, where HOL's \<open>powr\<close> gives 0), \<open>0.0 ** y\<close> is \<open>0.0\<close> for
  positive \<open>y\<close>, and a negative base with an integral exponent keeps the sign of the power.
\<close>

definition pow_value :: "real \<Rightarrow> real \<Rightarrow> real" where
  "pow_value x y =
     (if y = 0 then 1
      else if x = 0 then 0
      else if 0 < x then x powr y
      else (if even \<lfloor>y\<rfloor> then 1 else - 1) * ((- x) powr y))"

text \<open>
  \<open>float_pow\<close> is \<open>**\<close> on Python floats (an int operand is converted first):
  \<open>0.0 ** y\<close> raises ZeroDivisionError for negative \<open>y\<close>; a negative base with a
  non-integral exponent gives a complex number, where the model stops.
  On floats \<open>**\<close> also raises OverflowError when the power exceeds the largest double
  (\<open>(-1e200) ** 2.0\<close>); the real power is finite there, so this exception has no branch
  in \<open>float_pow\<close>, and no statement below says which exception a failing call raises
  where an overflow can come first.
\<close>

definition float_pow :: "real \<Rightarrow> real \<Rightarrow> error + real" where
  "float_pow x y =
     (if x = 0 \<and> y < 0 then Inl ZeroDivisionError
      else if x < 0 \<and> y \<notin> \<int> then Inl ComplexPower
      else Inr (pow_value x y))"

text \<open>
  \<open>np_power\<close> is \<open>**\<close> with a numpy float64 operand: it never raises, and gives \<open>inf\<close>
  or \<open>nan\<close> where \<open>float_pow\<close> raises or turns complex.
\<close>

definition np_power :: "real \<Rightarrow> real \<Rightarrow> error + real" where
  "np_power x y =
     (if x = 0 \<and> y < 0 then Inl NonFinite
      else if x < 0 \<and> y \<notin> \<int> then Inl NonFinite
      else Inr (pow_value x y))"

text \<open>
  The Gamma function, by Euler's limit
  \<open>\<Gamma>(x) = lim m! m\<^sup>x / (x (x+1) \<dots> (x+m))\<close>. \<open>scipy.special.gamma\<close> returns \<open>inf\<close> or
  \<open>nan\<close> at the poles 0, -1, -2, ...; elsewhere the Gamma function is not zero, so the
  divisions by it below are divisions by a non-zero number.
\<close>

definition Gamma_fn :: "real \<Rightarrow> real" where
  "Gamma_fn x = lim (\<lambda>m. fact m * real m powr x / (\<Prod>i = 0..m. x + real i))"

definition gamma :: "real \<Rightarrow> error + real" where
  "gamma x = (if x \<le> 0 \<and> x \<in> \<int> then Inl NonFinite else Inr (Gamma_fn x))"

text \<open>
  \<open>np.linspace(start, stop, num)\<close> for \<open>num \<ge> 0\<close> (a negative \<open>num\<close> raises ValueError,
  which the constructor below handles): \<open>num\<close> equally spaced points, the last one \<open>stop\<close>.
\<close>

definition linspace :: "real \<Rightarrow> real \<Rightarrow> nat \<Rightarrow> real list" where
  "linspace start stop num =
     map (\<lambda>i. start + real i * ((stop - start) / real (num - 1))) [0..<num]"

text \<open>\<open>np.zeros(shape = (rows, cols))\<close>, a two-dimensional array as the list of its rows.\<close>

definition zeros2 :: "nat \<Rightarrow> nat \<Rightarrow> real list list" where
  "zeros2 rows cols = replicate rows (replicate cols 0)"

text \<open>
  Reading and writing one entry, with the bounds check of numpy (the indices of this
  program are never negative, so the wrap-around of negative indices is left out).
\<close>

definition getitem :: "'v list \<Rightarrow> nat \<Rightarrow> error + 'v" where
  "getitem xs i = (if i < length xs then Inr (xs ! i) else Inl IndexError)"

definition setitem :: "'v list \<Rightarrow> nat \<Rightarrow> 'v \<Rightarrow> error + 'v list" where
  "setitem xs i v = (if i < length xs then Inr (xs[i := v]) else Inl IndexError)"

definition getitem2 :: "'v list list \<Rightarrow> nat \<Rightarrow> nat \<Rightarrow> error + 'v" where
  "getitem2 m j k = and_then (getitem m j) (\<lambda>row. getitem row k)"

definition setitem2 :: "'v list list \<Rightarrow> nat \<Rightarrow> nat \<Rightarrow> 'v \<Rightarrow> error + 'v list list" where
  "setitem2 m j k v =
     and_then (getitem m j) (\<lambda>row. and_then (setitem row k v) (\<lambda>row'. setitem m j row'))"

text \<open>\<open>d[key]\<close> on a dict: KeyError when the key is missing.\<close>

definition dict_getitem :: "(string \<rightharpoonup> real) \<Rightarrow> string \<Rightarrow> error + real" where
  "dict_getitem d key = (case d key of None \<Rightarrow> Inl KeyError | Some v \<Rightarrow> Inr v)"

subsection \<open>The class \<open>roughHeston\<close>\<close>

text \<open>
  The attributes of an instance. \<open>n\<close> is a natural number: the constructor below raises
  for every \<open>nbTimeSteps < 1\<close>, so no instance has another \<open>n\<close>. \<open>a_arr\<close> and \<open>b_arr\<close> are
  the arrays \<open>self.a_\<close> and \<open>self.b_\<close>. \<open>h_hat\<close> is \<open>None\<close> until \<open>fill_h\<close> first assigns the
  attribute.
\<close>

record roughHeston =
  T :: real
  n :: nat
  dt :: real
  time_grid :: "real list"
  S0 :: real
  kappa :: real
  nu :: real
  theta :: real
  alpha :: real
  V0 :: real
  rho :: real
  frac :: real
  frac2 :: real
  frac_bar :: real
  a_arr :: "real list list"
  b_arr :: "real list list"
  h_hat :: "complex list option"

text \<open>The fractional Riccati right-hand side, \<open>F(self, a, x)\<close>.\<close>

definition F :: "roughHeston \<Rightarrow> complex \<Rightarrow> complex \<Rightarrow> complex" where
  "F e u x =
     - 0.5 * (u * u + \<i> * u)
     - (of_real (kappa e) - \<i> * u * of_real (rho e) * of_real (nu e)) * x
     + 0.5 * of_real (nu e) * of_real (nu e) * x * x"

text \<open>The weights \<open>a(self, j, k)\<close> and \<open>b(self, j, k)\<close>; \<open>j\<close> and \<open>k\<close> are loop indices.\<close>

definition a :: "roughHeston \<Rightarrow> nat \<Rightarrow> nat \<Rightarrow> error + real" where
  "a e j k =
     (if j = 0 then
        and_then (float_pow (real k - 1) (alpha e + 1)) (\<lambda>p1.
        and_then (float_pow (real k) (alpha e)) (\<lambda>p2.
        Inr (frac e * (p1 - (real k - alpha e - 1) * p2))))
      else if j = k then Inr (frac e * 1)
      else
        and_then (float_pow (real k + 1 - real j) (alpha e + 1)) (\<lambda>p1.
        and_then (float_pow (real k - 1 - real j) (alpha e + 1)) (\<lambda>p2.
        and_then (float_pow (real k - real j) (alpha e + 1)) (\<lambda>p3.
        Inr (frac e * (p1 + p2 - 2 * p3))))))"

definition fill_a :: "roughHeston \<Rightarrow> error + roughHeston" where
  "fill_a e =
     for_each [1..<n e + 1] (\<lambda>k.
       for_each [0..<k + 1] (\<lambda>j s.
         and_then (a s j k) (\<lambda>v.
         and_then (setitem2 (a_arr s) j k v) (\<lambda>m.
         Inr (s\<lparr>a_arr := m\<rparr>)))))
       (e\<lparr>a_arr := zeros2 (n e + 1) (n e + 1)\<rparr>)"

definition b :: "roughHeston \<Rightarrow> nat \<Rightarrow> nat \<Rightarrow> error + real" where
  "b e j k =
     and_then (float_pow (real k - real j) (alpha e)) (\<lambda>p1.
     and_then (float_pow (real k - real j - 1) (alpha e)) (\<lambda>p2.
     Inr (frac2 e * (p1 - p2))))"

definition fill_b :: "roughHeston \<Rightarrow> error + roughHeston" where
  "fill_b e =
     for_each [1..<n e + 1] (\<lambda>k.
       for_each [0..<k] (\<lambda>j s.
         and_then (b s j k) (\<lambda>v.
         and_then (setitem2 (b_arr s) j k v) (\<lambda>m.
         Inr (s\<lparr>b_arr := m\<rparr>)))))
       (e\<lparr>b_arr := zeros2 (n e) (n e + 1)\<rparr>)"

text \<open>
  The constructor \<open>__init__(self, nbTimeSteps, heston_params, T)\<close>, statement by statement:
  \<open>self.T / self.n\<close> raises ZeroDivisionError for \<open>nbTimeSteps = 0\<close>; \<open>np.linspace\<close> raises
  ValueError for a negative number of points (\<open>nbTimeSteps < -1\<close>); the seven dict lookups
  raise KeyError; \<open>self.dt ** self.alpha\<close> is \<open>float_pow\<close>. With \<open>nbTimeSteps = -1\<close> the
  only exception before \<open>fill_b\<close> is the ZeroDivisionError of \<open>0.0 ** alpha\<close> (on
  floats also the OverflowError of \<open>self.dt ** self.alpha\<close>, which the real-number reading
  does not show), and \<open>fill_b\<close> raises ValueError on \<open>np.zeros(shape = (-1, 0))\<close>: the
  call ends in an exception either way. The arrays are attributes
  only once \<open>fill_a\<close> and \<open>fill_b\<close> have assigned them; the empty lists before that are
  never read.
\<close>

definition init :: "int \<Rightarrow> (string \<rightharpoonup> real) \<Rightarrow> real \<Rightarrow> error + roughHeston" where
  "init nbTimeSteps heston_params T0 =
     (if nbTimeSteps = 0 then Inl ZeroDivisionError
      else if nbTimeSteps < - 1 then Inl ValueError
      else
        and_then (dict_getitem heston_params ''S0'') (\<lambda>v_S0.
        and_then (dict_getitem heston_params ''kappa'') (\<lambda>v_kappa.
        and_then (dict_getitem heston_params ''nu'') (\<lambda>v_nu.
        and_then (dict_getitem heston_params ''theta'') (\<lambda>v_theta.
        and_then (dict_getitem heston_params ''alpha'') (\<lambda>v_alpha.
        and_then (dict_getitem heston_params ''V0'') (\<lambda>v_V0.
        and_then (dict_getitem heston_params ''rho'') (\<lambda>v_rho.
        let v_dt = T0 / of_int nbTimeSteps in
        if nbTimeSteps = - 1 then
          (if v_dt = 0 \<and> v_alpha < 0 then Inl ZeroDivisionError else Inl ValueError)
        else
          and_then (float_pow v_dt v_alpha) (\<lambda>p.
          and_then (gamma (v_alpha + 2)) (\<lambda>g2.
          and_then (gamma (v_alpha + 1)) (\<lambda>g1.
          and_then (gamma (1 - v_alpha)) (\<lambda>g0.
          and_then
            (fill_a \<lparr>T = T0, n = nat nbTimeSteps, dt = v_dt,
               time_grid = linspace 0 T0 (nat nbTimeSteps + 1),
               S0 = v_S0, kappa = v_kappa, nu = v_nu, theta = v_theta, alpha = v_alpha,
               V0 = v_V0, rho = v_rho,
               frac = p / g2, frac2 = p / g1, frac_bar = 1 / g0,
               a_arr = [], b_arr = [], h_hat = None\<rparr>)
            fill_b))))))))))))"

text \<open>\<open>self.h_hat[j]\<close> and \<open>self.h_hat[k] = v\<close>: AttributeError before the first \<open>fill_h\<close>.\<close>

definition h_hat_getitem :: "roughHeston \<Rightarrow> nat \<Rightarrow> error + complex" where
  "h_hat_getitem e j = (case h_hat e of None \<Rightarrow> Inl AttributeError | Some h \<Rightarrow> getitem h j)"

definition h_hat_setitem :: "roughHeston \<Rightarrow> nat \<Rightarrow> complex \<Rightarrow> error + roughHeston" where
  "h_hat_setitem e k v =
     (case h_hat e of
        None \<Rightarrow> Inl AttributeError
      | Some h \<Rightarrow> and_then (setitem h k v) (\<lambda>h'. Inr (e\<lparr>h_hat := Some h'\<rparr>)))"

text \<open>The two sums of the scheme, \<open>h_P(self, a, k)\<close> and \<open>sum_a(self, a, k)\<close>.\<close>

definition h_P :: "roughHeston \<Rightarrow> complex \<Rightarrow> nat \<Rightarrow> error + complex" where
  "h_P e u k =
     for_each [0..<k] (\<lambda>j res.
       and_then (getitem2 (b_arr e) j k) (\<lambda>w.
       and_then (h_hat_getitem e j) (\<lambda>x.
       Inr (res + of_real w * F e u x))))
       0"

definition sum_a :: "roughHeston \<Rightarrow> complex \<Rightarrow> nat \<Rightarrow> error + complex" where
  "sum_a e u k =
     for_each [0..<k] (\<lambda>j res.
       and_then (getitem2 (a_arr e) j k) (\<lambda>w.
       and_then (h_hat_getitem e j) (\<lambda>x.
       Inr (res + of_real w * F e u x))))
       0"

text \<open>The solver \<open>fill_h(self, a)\<close>: it assigns \<open>self.h_hat\<close> and fills it step by step.\<close>

definition fill_h :: "roughHeston \<Rightarrow> complex \<Rightarrow> error + roughHeston" where
  "fill_h e u =
     for_each [1..<n e + 1] (\<lambda>k s.
       and_then (h_P s u k) (\<lambda>v_h_P.
       and_then (sum_a s u k) (\<lambda>v_sum_a.
       and_then (getitem2 (a_arr s) k k) (\<lambda>akk.
       h_hat_setitem s k (v_sum_a + of_real akk * F s u v_h_P)))))
       (e\<lparr>h_hat := Some (replicate (n e + 1) 0)\<rparr>)"

text \<open>
  \<open>trapz(y, x)\<close> of numpy: \<open>sum(diff(x) * (y[1:] + y[:-1]) / 2)\<close>, with numpy's
  broadcasting of the two one-dimensional arrays (equal lengths, or one of length 1;
  ValueError otherwise).
\<close>

definition trapz :: "complex list \<Rightarrow> real list \<Rightarrow> error + complex" where
  "trapz y x =
     (let d = map (\<lambda>i. x ! (i + 1) - x ! i) [0..<length x - 1];
          m = map (\<lambda>i. y ! (i + 1) + y ! i) [0..<length y - 1]
      in if length d = length m then
           Inr (sum_list (map (\<lambda>i. of_real (d ! i) * (m ! i) / 2) [0..<length d]))
         else if length d = 1 then Inr (sum_list (map (\<lambda>v. of_real (d ! 0) * v / 2) m))
         else if length m = 1 then Inr (sum_list (map (\<lambda>w. of_real w * (m ! 0) / 2) d))
         else Inl ValueError)"

text \<open>\<open>np.fromiter(g(i) for i in xs)\<close>: the array of the generated values.\<close>

fun fromiter :: "'i list \<Rightarrow> ('i \<Rightarrow> error + 'v) \<Rightarrow> error + 'v list" where
  "fromiter [] g = Inr []"
| "fromiter (i # is) g =
     and_then (g i) (\<lambda>v. and_then (fromiter is g) (\<lambda>vs. Inr (v # vs)))"

text \<open>
  The characteristic function \<open>rHeston_char_function(self, a)\<close>. It returns the value and
  the instance, whose \<open>h_hat\<close> the call has overwritten. \<open>func\<close> is applied to entries of
  the float64 array \<open>time_grid\<close>, so its power is \<open>np_power\<close>; the division by
  \<open>1. - self.alpha\<close> is numpy's, \<open>inf\<close> or \<open>nan\<close> for a zero divisor.
\<close>

definition rHeston_char_function :: "roughHeston \<Rightarrow> complex \<Rightarrow> error + complex \<times> roughHeston" where
  "rHeston_char_function e u =
     and_then (fill_h e u) (\<lambda>s.
     case h_hat s of
       None \<Rightarrow> Inl AttributeError
     | Some h \<Rightarrow>
         and_then (trapz h (time_grid s)) (\<lambda>integral.
         and_then
           (fromiter [0..<n s] (\<lambda>i.
              and_then (getitem (time_grid s) i) (\<lambda>t0.
              and_then (np_power (T s - t0) (1 - alpha s)) (\<lambda>f0.
              and_then (getitem (time_grid s) (i + 1)) (\<lambda>t1.
              and_then (np_power (T s - t1) (1 - alpha s)) (\<lambda>f1.
              and_then (h_hat_getitem s i) (\<lambda>x.
              Inr (of_real (f0 - f1) * x))))))))
           (\<lambda>y.
         if 1 - alpha s = 0 then Inl NonFinite
         else
           Inr (exp (of_real (kappa s) * of_real (theta s) * integral
                     + of_real (V0 s) * (of_real (frac_bar s) * sum_list y / of_real (1 - alpha s))),
                s))))"

subsection \<open>Fourier inversion with \<open>scipy.integrate.quad\<close>\<close>

text \<open>
  \<open>quad(func, lo, hi)\<close> is an adaptive quadrature routine of scipy: it evaluates the
  integrand at points of its own choice, each chosen from the values seen so far, and
  returns a pair (value, error estimate). A run of it is a tree: ask for the integrand at
  a point and continue with the answer, or return. The routine itself is a parameter
  \<open>quad\<close> of the pricing functions: it maps the two limits to the run. Each evaluation of
  the integrand runs on the instance and may overwrite \<open>h_hat\<close>; an exception of the
  integrand ends the run.
\<close>

datatype limit = Finite real | Infinity

datatype quadrature = Return "real \<times> real" | Evaluate real "real \<Rightarrow> quadrature"

primrec run_quad ::
  "quadrature \<Rightarrow> (real \<Rightarrow> 's \<Rightarrow> error + real \<times> 's) \<Rightarrow> 's \<Rightarrow> error + (real \<times> real) \<times> 's" where
  "run_quad (Return r) func s = Inr (r, s)"
| "run_quad (Evaluate x continue) func s =
     and_then (func x s) (\<lambda>(y, s'). run_quad (continue y) func s')"

text \<open>The price \<open>rHeston_Call(self, k, upLim)\<close>.\<close>

definition rHeston_Call ::
  "(real \<Rightarrow> limit \<Rightarrow> quadrature) \<Rightarrow> roughHeston \<Rightarrow> real \<Rightarrow> real \<Rightarrow> error + real \<times> roughHeston" where
  "rHeston_Call quad e k upLim =
     (let K = S0 e * exp k;
          func = (\<lambda>x s.
            and_then (rHeston_char_function s (of_real x - 0.5 * \<i>)) (\<lambda>(phi, s').
            Inr (Re (exp (- \<i> * of_real x * of_real k) * phi) / (x\<^sup>2 + 0.25), s')))
      in and_then (run_quad (quad 0 (Finite 5)) func e) (\<lambda>(integ, s').
         Inr (S0 e - sqrt (S0 e * K) * fst integ / pi, s')))"

text \<open>
  The closed-form characteristic function \<open>heston_char_function(self, u)\<close>. The divisions
  and logarithms on numpy values give \<open>inf\<close> or \<open>nan\<close> instead of raising; the only
  exception is the ZeroDivisionError of the Python float division by \<open>nu2\<close>.
\<close>

definition np_divide :: "complex \<Rightarrow> complex \<Rightarrow> error + complex" where
  "np_divide x y = (if y = 0 then Inl NonFinite else Inr (x / y))"

definition np_log :: "real \<Rightarrow> error + real" where
  "np_log x = (if x \<le> 0 then Inl NonFinite else Inr (ln x))"

definition np_log_complex :: "complex \<Rightarrow> error + complex" where
  "np_log_complex z = (if z = 0 then Inl NonFinite else Inr (Complex (ln (cmod z)) (Arg z)))"

definition heston_char_function :: "roughHeston \<Rightarrow> complex \<Rightarrow> error + complex" where
  "heston_char_function e u =
     (let nu2 = (nu e)\<^sup>2;
          dif = of_real (kappa e) - of_real (rho e) * of_real (nu e) * u * \<i>;
          d = csqrt (dif\<^sup>2 + of_real nu2 * (\<i> * u + u\<^sup>2))
      in if nu2 = 0 then Inl ZeroDivisionError
         else
           and_then (np_divide (dif - d) (dif + d)) (\<lambda>g.
           and_then (np_log (S0 e)) (\<lambda>log_S0.
           and_then (np_divide (1 - g * exp (- d * of_real (T e))) (1 - g)) (\<lambda>q.
           and_then (np_log_complex q) (\<lambda>log_q.
           and_then
             (np_divide (of_real (V0 e / nu2) * (dif - d) * (1 - exp (- d * of_real (T e))))
                (1 - g * exp (- d * of_real (T e)))) (\<lambda>r.
           Inr (exp (\<i> * u * of_real log_S0)
                * exp (of_real (kappa e * theta e / nu2)
                       * ((dif - d) * of_real (T e) - 2 * log_q))
                * exp r)))))))"

text \<open>The reference price \<open>heston_Call(self, k)\<close>; it changes no attribute.\<close>

definition heston_Call ::
  "(real \<Rightarrow> limit \<Rightarrow> quadrature) \<Rightarrow> roughHeston \<Rightarrow> real \<Rightarrow> error + real \<times> roughHeston" where
  "heston_Call quad e k =
     (let K = S0 e * exp k;
          func = (\<lambda>x s.
            and_then (heston_char_function s (of_real x - 0.5 * \<i>)) (\<lambda>phi.
            Inr (Re (exp (- \<i> * of_real x * of_real k) * phi) / (x\<^sup>2 + 0.25), s)))
      in and_then (run_quad (quad 0 Infinity) func e) (\<lambda>(integ, s').
         Inr (S0 e - sqrt (S0 e * K) * fst integ / pi, s')))"

text \<open>
  A caller's use of an instance after construction: any sequence of calls of the solver,
  the characteristic function and the two price queries, each on the instance the
  previous call left.
\<close>

datatype method_call =
    Call_fill_h complex
  | Call_rHeston_char_function complex
  | Call_rHeston_Call real real
  | Call_heston_Call real

fun perform ::
  "(real \<Rightarrow> limit \<Rightarrow> quadrature) \<Rightarrow> method_call \<Rightarrow> roughHeston \<Rightarrow> error + roughHeston" where
  "perform quad (Call_fill_h u) e = fill_h e u"
| "perform quad (Call_rHeston_char_function u) e =
     and_then (rHeston_char_function e u) (\<lambda>(v, e'). Inr e')"
| "perform quad (Call_rHeston_Call k upLim) e =
     and_then (rHeston_Call quad e k upLim) (\<lambda>(v, e'). Inr e')"
| "perform quad (Call_heston_Call k) e =
     and_then (heston_Call quad e k) (\<lambda>(v, e'). Inr e')"

subsection \<open>Black-Scholes price and implied volatility\<close>

text \<open>
  \<open>scipy.stats.norm.cdf\<close> is the distribution function of the standard normal law, here by
  its power series \<open>1/2 + x / sqrt (2 pi) * (\<Sum>m. (- x\<^sup>2 / 2) ^ m / (m! (2 m + 1)))\<close>, and
  \<open>norm_pdf\<close> is the density \<open>scipy.stats.norm.pdf\<close>; \<open>norm_cdf_deriv\<close> and \<open>norm_cdf_zero\<close>
  below show that \<open>norm_cdf\<close> is the function with this derivative and the value 1/2 at 0.
\<close>

definition cdf_coeff :: "nat \<Rightarrow> real" where
  "cdf_coeff m = 1 / (fact m * (2 * real m + 1))"

definition norm_cdf :: "real \<Rightarrow> real" where
  "norm_cdf x = 1 / 2 + x / sqrt (2 * pi) * (\<Sum>m. cdf_coeff m * (- (x\<^sup>2) / 2) ^ m)"









subsection \<open>The notebook's parameters\<close>

text \<open>
  The dict \<open>heston_params\<close> of the notebook, and the instance
  \<open>roughHeston(2, heston_params, 1.)\<close> written out; \<open>init_notebook\<close> below shows that the
  constructor returns it.
\<close>

definition notebook_params :: "string \<rightharpoonup> real" where
  "notebook_params =
     [''kappa'' \<mapsto> 0.3, ''nu'' \<mapsto> 0.3, ''alpha'' \<mapsto> 0.6, ''rho'' \<mapsto> - 0.7, ''V0'' \<mapsto> 0.02,
      ''theta'' \<mapsto> 0.02, ''S0'' \<mapsto> 1]"

definition notebook_engine :: roughHeston where
  "notebook_engine =
     \<lparr>T = 1, n = 2, dt = 1 / 2, time_grid = [0, 1 / 2, 1],
      S0 = 1, kappa = 3 / 10, nu = 3 / 10, theta = 1 / 50, alpha = 3 / 5, V0 = 1 / 50,
      rho = - (7 / 10),
      frac = (1 / 2) powr (3 / 5) / Gamma_fn (13 / 5),
      frac2 = (1 / 2) powr (3 / 5) / Gamma_fn (8 / 5),
      frac_bar = 1 / Gamma_fn (2 / 5),
      a_arr =
        [[0, (1 / 2) powr (3 / 5) * 3 / (5 * Gamma_fn (13 / 5)),
          (1 / 2) powr (3 / 5) * (1 - 2 * 2 powr (3 / 5) / 5) / Gamma_fn (13 / 5)],
         [0, (1 / 2) powr (3 / 5) / Gamma_fn (13 / 5),
          (1 / 2) powr (3 / 5) * (2 powr (8 / 5) - 2) / Gamma_fn (13 / 5)],
         [0, 0, (1 / 2) powr (3 / 5) / Gamma_fn (13 / 5)]],
      b_arr =
        [[0, (1 / 2) powr (3 / 5) / Gamma_fn (8 / 5),
          (1 / 2) powr (3 / 5) * (2 powr (3 / 5) - 1) / Gamma_fn (8 / 5)],
         [0, 0, (1 / 2) powr (3 / 5) / Gamma_fn (8 / 5)]],
      h_hat = None\<rparr>"

section \<open>Verification\<close>

subsection \<open>Sequencing and loops\<close>

lemma and_then_Inr_iff:
  "and_then r f = Inr y \<longleftrightarrow> (\<exists>v. r = Inr v \<and> f v = Inr y)"
  by (cases r) auto

lemma for_each_append:
  "for_each (xs @ ys) body s = and_then (for_each xs body s) (for_each ys body)"
proof (induction xs arbitrary: s)
  case Nil
  show ?case by simp
next
  case (Cons x xs)
  show ?case by (cases "body x s") (simp_all add: Cons.IH)
qed

lemma for_each_map:
  "for_each (map g xs) body s = for_each xs (\<lambda>i. body (g i)) s"
proof (induction xs arbitrary: s)
  case Nil
  show ?case by simp
next
  case (Cons x xs)
  show ?case by (cases "body (g x) s") (simp_all add: Cons.IH)
qed

lemma for_each_nested:
  "for_each ks (\<lambda>k. for_each (js k) (\<lambda>j. body j k)) s =
   for_each (concat (map (\<lambda>k. map (\<lambda>j. (j, k)) (js k)) ks)) (\<lambda>(j, k). body j k) s"
proof (induction ks arbitrary: s)
  case Nil
  show ?case by simp
next
  case (Cons k ks)
  have "for_each (map (\<lambda>j. (j, k)) (js k)) (\<lambda>(j, k). body j k) s = for_each (js k) (\<lambda>j. body j k) s"
    by (simp add: for_each_map)
  then show ?case
    by (cases "for_each (js k) (\<lambda>j. body j k) s") (simp_all add: for_each_append Cons.IH)
qed

lemma for_each_invariant:
  assumes "for_each xs body s = Inr s'" and "P s"
    and "\<And>i t t'. i \<in> set xs \<Longrightarrow> P t \<Longrightarrow> body i t = Inr t' \<Longrightarrow> P t'"
  shows "P s'"
  using assms
proof (induction xs arbitrary: s)
  case Nil
  then show ?case by simp
next
  case (Cons x xs)
  from Cons.prems(1) obtain t where t: "body x s = Inr t" and rest: "for_each xs body t = Inr s'"
    by (auto simp: and_then_Inr_iff)
  have "P t" by (rule Cons.prems(3) [OF _ Cons.prems(2) t]) simp
  show ?case
  proof (rule Cons.IH [OF rest \<open>P t\<close>])
    fix i t0 t1 assume "i \<in> set xs" "P t0" "body i t0 = Inr t1"
    then show "P t1" using Cons.prems(3) [of i t0 t1] by simp
  qed
qed

lemma run_quad_invariant:
  assumes "run_quad q func s = Inr (r, s')" and "P s"
    and "\<And>x t y t'. P t \<Longrightarrow> func x t = Inr (y, t') \<Longrightarrow> P t'"
  shows "P s'"
  using assms(1,2)
proof (induction q arbitrary: s)
  case (Return r0)
  then show ?case by simp
next
  case (Evaluate x continue)
  from Evaluate.prems(1) obtain y t where step: "func x s = Inr (y, t)"
    and rest: "run_quad (continue y) func t = Inr (r, s')"
    by (auto simp: and_then_Inr_iff)
  have "P t" using assms(3) Evaluate.prems(2) step by blast
  with rest show ?case using Evaluate.IH [of "continue y" t] by simp
qed

subsection \<open>Arrays\<close>

lemma getitem_Inr_iff: "getitem xs i = Inr v \<longleftrightarrow> i < length xs \<and> v = xs ! i"
  by (auto simp: getitem_def)

lemma setitem_Inr_iff: "setitem xs i v = Inr ys \<longleftrightarrow> i < length xs \<and> ys = xs[i := v]"
  by (auto simp: setitem_def)

lemma getitem2_Inr_iff:
  "getitem2 m j k = Inr v \<longleftrightarrow> j < length m \<and> k < length (m ! j) \<and> v = m ! j ! k"
  by (auto simp: getitem2_def and_then_Inr_iff getitem_Inr_iff)

lemma setitem2_Inr_iff:
  "setitem2 m j k v = Inr m' \<longleftrightarrow>
     j < length m \<and> k < length (m ! j) \<and> m' = m[j := (m ! j)[k := v]]"
  by (auto simp: setitem2_def and_then_Inr_iff getitem_Inr_iff setitem_Inr_iff)

lemma getitem2_in_range:
  "j < length m \<Longrightarrow> k < length (m ! j) \<Longrightarrow> getitem2 m j k = Inr (m ! j ! k)"
  by (simp add: getitem2_Inr_iff)

lemma shape_update: "j < length m \<Longrightarrow> map length (m[j := (m ! j)[k := v]]) = map length m"
  by (simp add: map_update list_update_same_conv)

lemma shape_nth:
  assumes "map length m = replicate rows cols" and "j < rows"
  shows "length m = rows" and "length (m ! j) = cols"
proof -
  from assms(1) have "length (map length m) = rows" by simp
  then show len: "length m = rows" by simp
  from assms len have "map length m ! j = cols" by simp
  with assms(2) len show "length (m ! j) = cols" by simp
qed

lemma zeros2_nth: "j < rows \<Longrightarrow> k < cols \<Longrightarrow> zeros2 rows cols ! j ! k = 0"
  by (simp add: zeros2_def)

lemma zeros2_shape: "map length (zeros2 rows cols) = replicate rows cols"
  by (simp add: zeros2_def)

lemma zeros2_row_length: "j < rows \<Longrightarrow> length (zeros2 rows cols ! j) = cols"
  by (simp add: zeros2_def)

lemma zeros2_length: "length (zeros2 rows cols) = rows"
  by (simp add: zeros2_def)

text \<open>
  A loop nest that writes w(j, k) into entry (j, k) of one array attribute, as \<open>fill_a\<close>
  and \<open>fill_b\<close> do: the shape is kept, the written entries hold w, the others are untouched.
\<close>
lemma fill_pairs:
  fixes get :: "'s \<Rightarrow> real list list" and put :: "'s \<Rightarrow> real list list \<Rightarrow> 's"
  assumes get_put: "\<And>s m. get (put s m) = m"
    and put_put: "\<And>s m m'. put (put s m) m' = put s m'"
    and put_get: "\<And>s. put s (get s) = s"
    and w_put: "\<And>s m j k. w (put s m) j k = w s j k"
    and run: "for_each ps (\<lambda>(j, k) s. and_then (w s j k) (\<lambda>v.
                and_then (setitem2 (get s) j k v) (\<lambda>m. Inr (put s m)))) s = Inr s'"
  shows "s' = put s (get s') \<and> map length (get s') = map length (get s) \<and>
         (\<forall>(j, k) \<in> set ps. w s j k = Inr (get s' ! j ! k) \<and> j < length (get s) \<and> k < length (get s ! j)) \<and>
         (\<forall>j k. (j, k) \<notin> set ps \<longrightarrow> get s' ! j ! k = get s ! j ! k)"
  using run
proof (induction ps arbitrary: s)
  case Nil
  then show ?case by (simp add: put_get)
next
  case (Cons p ps)
  obtain j k where p: "p = (j, k)" by (cases p)
  from Cons.prems obtain v m where v: "w s j k = Inr v"
    and m: "setitem2 (get s) j k v = Inr m"
    and rest: "for_each ps (\<lambda>(j, k) s. and_then (w s j k) (\<lambda>v.
                and_then (setitem2 (get s) j k v) (\<lambda>m. Inr (put s m)))) (put s m) = Inr s'"
    by (auto simp: p and_then_Inr_iff)
  from m have jk: "j < length (get s)" "k < length (get s ! j)"
    and m_eq: "m = (get s)[j := (get s ! j)[k := v]]"
    by (simp_all add: setitem2_Inr_iff)
  note IH = Cons.IH [OF rest, unfolded get_put put_put w_put]
  have sh: "map length m = map length (get s)" using jk m_eq by (simp add: shape_update)
  have len: "length m = length (get s)" using m_eq by simp
  have mjk: "m ! j ! k = v" using jk m_eq by simp
  have other: "(j', k') \<noteq> (j, k) \<Longrightarrow> m ! j' ! k' = get s ! j' ! k'" for j' k'
    using jk m_eq by (cases "j' = j") (auto simp: nth_list_update)
  have rowlen: "length (m ! j') = length (get s ! j')" for j'
    using jk m_eq by (cases "j' = j") (auto simp: nth_list_update)
  show ?case
  proof (intro conjI)
    show "s' = put s (get s')" using IH by simp
    show "map length (get s') = map length (get s)" using IH sh by simp
    show "\<forall>(j, k)\<in>set (p # ps). w s j k = Inr (get s' ! j ! k) \<and> j < length (get s) \<and> k < length (get s ! j)"
    proof (clarify)
      fix j' k' assume "(j', k') \<in> set (p # ps)"
      then consider "(j', k') \<in> set ps" | "(j', k') \<notin> set ps" "(j', k') = (j, k)"
        using p by auto
      then show "w s j' k' = Inr (get s' ! j' ! k') \<and> j' < length (get s) \<and> k' < length (get s ! j')"
      proof cases
        case 1
        with IH show ?thesis using len rowlen by auto
      next
        case 2
        with IH have "get s' ! j ! k = m ! j ! k" by auto
        with 2 v mjk jk show ?thesis by simp
      qed
    qed
    show "\<forall>j k. (j, k) \<notin> set (p # ps) \<longrightarrow> get s' ! j ! k = get s ! j ! k"
      using IH other p by auto
  qed
qed

lemma fill_pairs_total:
  fixes get :: "'s \<Rightarrow> real list list" and put :: "'s \<Rightarrow> real list list \<Rightarrow> 's"
  assumes get_put: "\<And>s m. get (put s m) = m"
    and w_put: "\<And>s m j k. w (put s m) j k = w s j k"
    and ok: "\<forall>(j, k) \<in> set ps. (\<exists>v. w s j k = Inr v) \<and> j < length (get s) \<and> k < length (get s ! j)"
  shows "\<exists>s'. for_each ps (\<lambda>(j, k) s. and_then (w s j k) (\<lambda>v.
                and_then (setitem2 (get s) j k v) (\<lambda>m. Inr (put s m)))) s = Inr s'"
  using ok
proof (induction ps arbitrary: s)
  case Nil
  show ?case by simp
next
  case (Cons p ps)
  obtain j k where p: "p = (j, k)" by (cases p)
  from Cons.prems p obtain v where v: "w s j k = Inr v"
    and jk: "j < length (get s)" "k < length (get s ! j)" by auto
  define m where "m = (get s)[j := (get s ! j)[k := v]]"
  have m: "setitem2 (get s) j k v = Inr m"
    using jk by (simp add: setitem2_Inr_iff m_def)
  have len: "length m = length (get s)" by (simp add: m_def)
  have rowlen: "length (m ! j') = length (get s ! j')" for j'
    using jk by (cases "j' = j") (auto simp: m_def nth_list_update)
  have "\<forall>(j, k) \<in> set ps. (\<exists>v. w (put s m) j k = Inr v) \<and> j < length (get (put s m))
           \<and> k < length (get (put s m) ! j)"
    using Cons.prems by (auto simp: get_put w_put len rowlen)
  from Cons.IH [OF this] show ?case
    by (simp add: p v m)
qed

subsection \<open>Powers\<close>

lemma float_pow_Inr: "float_pow x y = Inr p \<Longrightarrow> p = pow_value x y"
  by (auto simp: float_pow_def split: if_splits)

lemma float_pow_nonneg: "0 \<le> x \<Longrightarrow> 0 \<le> y \<Longrightarrow> float_pow x y = Inr (pow_value x y)"
  by (simp add: float_pow_def)

lemma pow_value_powr: "0 \<le> x \<Longrightarrow> 0 < y \<Longrightarrow> pow_value x y = x powr y"
  by (auto simp: pow_value_def)

lemma pow_value_powr_pos: "0 < x \<Longrightarrow> pow_value x y = x powr y"
  by (auto simp: pow_value_def)

lemma np_power_powr:
  "0 \<le> x \<Longrightarrow> 0 < y \<Longrightarrow> np_power x y = Inr (x powr y)"
  by (simp add: np_power_def pow_value_powr)

subsection \<open>The constructor\<close>

lemma a_update [simp]: "a (s\<lparr>a_arr := m\<rparr>) j k = a s j k"
  by (simp add: a_def)

lemma b_update [simp]: "b (s\<lparr>b_arr := m\<rparr>) j k = b s j k"
  by (simp add: b_def)

lemma set_pairs_a:
  "set (concat (map (\<lambda>k. map (\<lambda>j. (j, k)) [0..<k + 1]) [1..<N + 1])) =
     {(j, k). 1 \<le> k \<and> k \<le> N \<and> j \<le> k}"
proof -
  have "(j, k) \<in> set (concat (map (\<lambda>k. map (\<lambda>j. (j, k)) [0..<k + 1]) [1..<N + 1]))
          \<longleftrightarrow> 1 \<le> k \<and> k \<le> N \<and> j \<le> k" for j k
    by (auto simp: image_iff)
  then show ?thesis by auto
qed

lemma set_pairs_b:
  "set (concat (map (\<lambda>k. map (\<lambda>j. (j, k)) [0..<k]) [1..<N + 1])) =
     {(j, k). 1 \<le> k \<and> k \<le> N \<and> j < k}"
proof -
  have "(j, k) \<in> set (concat (map (\<lambda>k. map (\<lambda>j. (j, k)) [0..<k]) [1..<N + 1]))
          \<longleftrightarrow> 1 \<le> k \<and> k \<le> N \<and> j < k" for j k
    by (auto simp: image_iff)
  then show ?thesis by auto
qed

lemma fill_a_Inr:
  assumes "fill_a e = Inr e'"
  shows "e' = e\<lparr>a_arr := a_arr e'\<rparr>"
    and "map length (a_arr e') = replicate (n e + 1) (n e + 1)"
    and "1 \<le> k \<Longrightarrow> k \<le> n e \<Longrightarrow> j \<le> k \<Longrightarrow> a e j k = Inr (a_arr e' ! j ! k)"
    and "j \<le> n e \<Longrightarrow> k \<le> n e \<Longrightarrow> k = 0 \<or> k < j \<Longrightarrow> a_arr e' ! j ! k = 0"
proof -
  let ?ps = "concat (map (\<lambda>k. map (\<lambda>j. (j, k)) [0..<k + 1]) [1..<n e + 1])"
  let ?e0 = "e\<lparr>a_arr := zeros2 (n e + 1) (n e + 1)\<rparr>"
  from assms have run: "for_each ?ps (\<lambda>(j, k) s. and_then (a s j k) (\<lambda>v.
      and_then (setitem2 (a_arr s) j k v) (\<lambda>m. Inr (s\<lparr>a_arr := m\<rparr>)))) ?e0 = Inr e'"
    unfolding fill_a_def for_each_nested .
  note R = fill_pairs [where get = a_arr and put = "\<lambda>s m. s\<lparr>a_arr := m\<rparr>" and w = a, OF _ _ _ _ run,
      unfolded set_pairs_a, simplified]
  from R show "e' = e\<lparr>a_arr := a_arr e'\<rparr>" by simp
  from R show "map length (a_arr e') = replicate (n e + 1) (n e + 1)"
    by (simp add: zeros2_shape)
  from R show "1 \<le> k \<Longrightarrow> k \<le> n e \<Longrightarrow> j \<le> k \<Longrightarrow> a e j k = Inr (a_arr e' ! j ! k)"
    by auto
  from R show "j \<le> n e \<Longrightarrow> k \<le> n e \<Longrightarrow> k = 0 \<or> k < j \<Longrightarrow> a_arr e' ! j ! k = 0"
    by (auto simp: zeros2_nth)
qed

lemma fill_b_Inr:
  assumes "fill_b e = Inr e'"
  shows "e' = e\<lparr>b_arr := b_arr e'\<rparr>"
    and "map length (b_arr e') = replicate (n e) (n e + 1)"
    and "1 \<le> k \<Longrightarrow> k \<le> n e \<Longrightarrow> j < k \<Longrightarrow> b e j k = Inr (b_arr e' ! j ! k)"
    and "j < n e \<Longrightarrow> k \<le> n e \<Longrightarrow> k \<le> j \<Longrightarrow> b_arr e' ! j ! k = 0"
proof -
  let ?ps = "concat (map (\<lambda>k. map (\<lambda>j. (j, k)) [0..<k]) [1..<n e + 1])"
  let ?e0 = "e\<lparr>b_arr := zeros2 (n e) (n e + 1)\<rparr>"
  from assms have run: "for_each ?ps (\<lambda>(j, k) s. and_then (b s j k) (\<lambda>v.
      and_then (setitem2 (b_arr s) j k v) (\<lambda>m. Inr (s\<lparr>b_arr := m\<rparr>)))) ?e0 = Inr e'"
    unfolding fill_b_def for_each_nested .
  note R = fill_pairs [where get = b_arr and put = "\<lambda>s m. s\<lparr>b_arr := m\<rparr>" and w = b, OF _ _ _ _ run,
      unfolded set_pairs_b, simplified]
  from R show "e' = e\<lparr>b_arr := b_arr e'\<rparr>" by simp
  from R show "map length (b_arr e') = replicate (n e) (n e + 1)"
    by (simp add: zeros2_shape)
  from R show "1 \<le> k \<Longrightarrow> k \<le> n e \<Longrightarrow> j < k \<Longrightarrow> b e j k = Inr (b_arr e' ! j ! k)"
    by auto
  from R show "j < n e \<Longrightarrow> k \<le> n e \<Longrightarrow> k \<le> j \<Longrightarrow> b_arr e' ! j ! k = 0"
    by (auto simp: zeros2_nth)
qed

lemma a_total:
  assumes "0 \<le> alpha e" and "1 \<le> k" and "j \<le> k"
  shows "\<exists>v. a e j k = Inr v"
  using assms by (simp add: a_def float_pow_nonneg)

lemma b_total:
  assumes "0 \<le> alpha e" and "j < k"
  shows "\<exists>v. b e j k = Inr v"
  using assms by (simp add: b_def float_pow_nonneg)

lemma fill_a_total:
  assumes "0 \<le> alpha e"
  shows "\<exists>e'. fill_a e = Inr e'"
proof -
  let ?ps = "concat (map (\<lambda>k. map (\<lambda>j. (j, k)) [0..<k + 1]) [1..<n e + 1])"
  let ?e0 = "e\<lparr>a_arr := zeros2 (n e + 1) (n e + 1)\<rparr>"
  have ok: "\<forall>(j, k) \<in> set ?ps. (\<exists>v. a ?e0 j k = Inr v) \<and> j < length (a_arr ?e0)
      \<and> k < length (a_arr ?e0 ! j)"
    unfolding set_pairs_a using assms
    by (auto simp: zeros2_length zeros2_row_length intro!: a_total)
  have "\<exists>s'. for_each ?ps (\<lambda>(j, k) s. and_then (a s j k) (\<lambda>v.
      and_then (setitem2 (a_arr s) j k v) (\<lambda>m. Inr (s\<lparr>a_arr := m\<rparr>)))) ?e0 = Inr s'"
    by (rule fill_pairs_total [where get = a_arr and put = "\<lambda>s m. s\<lparr>a_arr := m\<rparr>" and w = a,
          OF _ _ ok]) simp_all
  then show ?thesis
    unfolding fill_a_def for_each_nested .
qed

lemma fill_b_total:
  assumes "0 \<le> alpha e"
  shows "\<exists>e'. fill_b e = Inr e'"
proof -
  let ?ps = "concat (map (\<lambda>k. map (\<lambda>j. (j, k)) [0..<k]) [1..<n e + 1])"
  let ?e0 = "e\<lparr>b_arr := zeros2 (n e) (n e + 1)\<rparr>"
  have ok: "\<forall>(j, k) \<in> set ?ps. (\<exists>v. b ?e0 j k = Inr v) \<and> j < length (b_arr ?e0)
      \<and> k < length (b_arr ?e0 ! j)"
    unfolding set_pairs_b using assms
    by (auto simp: zeros2_length zeros2_row_length intro!: b_total)
  have "\<exists>s'. for_each ?ps (\<lambda>(j, k) s. and_then (b s j k) (\<lambda>v.
      and_then (setitem2 (b_arr s) j k v) (\<lambda>m. Inr (s\<lparr>b_arr := m\<rparr>)))) ?e0 = Inr s'"
    by (rule fill_pairs_total [where get = b_arr and put = "\<lambda>s m. s\<lparr>b_arr := m\<rparr>" and w = b,
          OF _ _ ok]) simp_all
  then show ?thesis
    unfolding fill_b_def for_each_nested .
qed

lemma dict_getitem_Inr_iff: "dict_getitem d key = Inr v \<longleftrightarrow> d key = Some v"
  by (simp add: dict_getitem_def split: option.splits)

lemma gamma_Inr_iff: "gamma x = Inr g \<longleftrightarrow> \<not> (x \<le> 0 \<and> x \<in> \<int>) \<and> g = Gamma_fn x"
  by (auto simp: gamma_def)

text \<open>
  What a constructor call that returns an instance says about its arguments and about
  the instance.
\<close>
lemma init_Inr:
  assumes "init N hp T0 = Inr e"
  shows "1 \<le> N"
    and "T e = T0 \<and> n e = nat N \<and> dt e = T0 / of_int N
         \<and> time_grid e = linspace 0 T0 (nat N + 1) \<and> h_hat e = None"
    and "hp ''S0'' = Some (S0 e) \<and> hp ''kappa'' = Some (kappa e) \<and> hp ''nu'' = Some (nu e)
         \<and> hp ''theta'' = Some (theta e) \<and> hp ''alpha'' = Some (alpha e)
         \<and> hp ''V0'' = Some (V0 e) \<and> hp ''rho'' = Some (rho e)"
    and "float_pow (dt e) (alpha e) = Inr (pow_value (dt e) (alpha e))"
    and "frac e = pow_value (dt e) (alpha e) / Gamma_fn (alpha e + 2)
         \<and> frac2 e = pow_value (dt e) (alpha e) / Gamma_fn (alpha e + 1)
         \<and> frac_bar e = 1 / Gamma_fn (1 - alpha e)"
    and "\<not> (1 - alpha e \<le> 0 \<and> 1 - alpha e \<in> \<int>)"
    and "map length (a_arr e) = replicate (n e + 1) (n e + 1)"
    and "map length (b_arr e) = replicate (n e) (n e + 1)"
    and "1 \<le> k \<Longrightarrow> k \<le> n e \<Longrightarrow> j \<le> k \<Longrightarrow> a e j k = Inr (a_arr e ! j ! k)"
    and "j \<le> n e \<Longrightarrow> k \<le> n e \<Longrightarrow> k = 0 \<or> k < j \<Longrightarrow> a_arr e ! j ! k = 0"
    and "1 \<le> k \<Longrightarrow> k \<le> n e \<Longrightarrow> j < k \<Longrightarrow> b e j k = Inr (b_arr e ! j ! k)"
    and "j < n e \<Longrightarrow> k \<le> n e \<Longrightarrow> k \<le> j \<Longrightarrow> b_arr e ! j ! k = 0"
proof -
  from assms have N: "N \<noteq> 0" "\<not> N < - 1"
    by (auto simp: init_def split: if_splits)
  from assms N obtain v_S0 v_kappa v_nu v_theta v_alpha v_V0 v_rho where
    keys: "hp ''S0'' = Some v_S0" "hp ''kappa'' = Some v_kappa" "hp ''nu'' = Some v_nu"
      "hp ''theta'' = Some v_theta" "hp ''alpha'' = Some v_alpha" "hp ''V0'' = Some v_V0"
      "hp ''rho'' = Some v_rho"
    by (auto simp: init_def and_then_Inr_iff dict_getitem_Inr_iff)
  from assms N keys have N1: "N \<noteq> - 1"
    by (auto simp: init_def dict_getitem_def Let_def split: if_splits)
  with N show "1 \<le> N" by simp
  define e0 where "e0 = \<lparr>T = T0, n = nat N, dt = T0 / of_int N,
       time_grid = linspace 0 T0 (nat N + 1),
       S0 = v_S0, kappa = v_kappa, nu = v_nu, theta = v_theta, alpha = v_alpha,
       V0 = v_V0, rho = v_rho,
       frac = pow_value (T0 / of_int N) v_alpha / Gamma_fn (v_alpha + 2),
       frac2 = pow_value (T0 / of_int N) v_alpha / Gamma_fn (v_alpha + 1),
       frac_bar = 1 / Gamma_fn (1 - v_alpha),
       a_arr = [], b_arr = [], h_hat = None\<rparr>"
  from assms N N1 keys obtain e1 where
    pw: "float_pow (T0 / of_int N) v_alpha = Inr (pow_value (T0 / of_int N) v_alpha)"
    and g0: "\<not> (1 - v_alpha \<le> 0 \<and> 1 - v_alpha \<in> \<int>)"
    and fa: "fill_a e0 = Inr e1" and fb: "fill_b e1 = Inr e"
    by (auto simp: init_def dict_getitem_def Let_def and_then_Inr_iff gamma_Inr_iff e0_def
        dest: float_pow_Inr)
  note A = fill_a_Inr [OF fa] and B = fill_b_Inr [OF fb]
  have e1: "e1 = e0\<lparr>a_arr := a_arr e1\<rparr>" by (rule A(1))
  have e: "e = e1\<lparr>b_arr := b_arr e\<rparr>" by (rule B(1))
  have fields: "T e = T e0" "n e = n e0" "dt e = dt e0" "time_grid e = time_grid e0"
    "S0 e = S0 e0" "kappa e = kappa e0" "nu e = nu e0" "theta e = theta e0"
    "alpha e = alpha e0" "V0 e = V0 e0" "rho e = rho e0" "frac e = frac e0"
    "frac2 e = frac2 e0" "frac_bar e = frac_bar e0" "h_hat e = h_hat e0"
    "a_arr e = a_arr e1"
    by (subst e, subst e1, simp)+
  have n_e1: "n e1 = n e0"
    by (subst e1) simp
  show "T e = T0 \<and> n e = nat N \<and> dt e = T0 / of_int N
         \<and> time_grid e = linspace 0 T0 (nat N + 1) \<and> h_hat e = None"
    by (simp add: fields e0_def)
  show "hp ''S0'' = Some (S0 e) \<and> hp ''kappa'' = Some (kappa e) \<and> hp ''nu'' = Some (nu e)
         \<and> hp ''theta'' = Some (theta e) \<and> hp ''alpha'' = Some (alpha e)
         \<and> hp ''V0'' = Some (V0 e) \<and> hp ''rho'' = Some (rho e)"
    by (simp add: fields e0_def keys)
  show "float_pow (dt e) (alpha e) = Inr (pow_value (dt e) (alpha e))"
    using pw by (simp add: fields e0_def)
  show "frac e = pow_value (dt e) (alpha e) / Gamma_fn (alpha e + 2)
         \<and> frac2 e = pow_value (dt e) (alpha e) / Gamma_fn (alpha e + 1)
         \<and> frac_bar e = 1 / Gamma_fn (1 - alpha e)"
    by (simp add: fields e0_def)
  show "\<not> (1 - alpha e \<le> 0 \<and> 1 - alpha e \<in> \<int>)"
    using g0 by (simp add: fields e0_def)
  show "map length (a_arr e) = replicate (n e + 1) (n e + 1)"
    using A(2) by (simp add: fields)
  show "map length (b_arr e) = replicate (n e) (n e + 1)"
    using B(2) by (simp add: fields n_e1)
  have a_eq: "a e j k = a e0 j k" for j k
    by (simp add: a_def fields)
  have b_eq: "b e j k = b e1 j k" for j k
    by (subst e) simp
  show "1 \<le> k \<Longrightarrow> k \<le> n e \<Longrightarrow> j \<le> k \<Longrightarrow> a e j k = Inr (a_arr e ! j ! k)"
    using A(3) [of k j] by (simp add: a_eq fields)
  show "j \<le> n e \<Longrightarrow> k \<le> n e \<Longrightarrow> k = 0 \<or> k < j \<Longrightarrow> a_arr e ! j ! k = 0"
    using A(4) [of j k] by (simp add: fields)
  show "1 \<le> k \<Longrightarrow> k \<le> n e \<Longrightarrow> j < k \<Longrightarrow> b e j k = Inr (b_arr e ! j ! k)"
    using B(3) [of k j] by (simp add: b_eq fields n_e1)
  show "j < n e \<Longrightarrow> k \<le> n e \<Longrightarrow> k \<le> j \<Longrightarrow> b_arr e ! j ! k = 0"
    using B(4) [of j k] by (simp add: fields n_e1)
qed

lemma init_alpha_nonneg:
  assumes "init N hp T0 = Inr e"
  shows "0 \<le> alpha e"
proof -
  from init_Inr(1,2) [OF assms] have n1: "1 \<le> n e" by simp
  from init_Inr(11) [OF assms, of 1 0] n1
  obtain v where "b e 0 1 = Inr v" by auto
  then show ?thesis
    by (auto simp: b_def and_then_Inr_iff float_pow_def split: if_splits)
qed

lemma init_total:
  assumes N: "1 \<le> N" and T_nonneg: "0 \<le> T0"
    and keys: "hp ''S0'' = Some v_S0" "hp ''kappa'' = Some v_kappa" "hp ''nu'' = Some v_nu"
      "hp ''theta'' = Some v_theta" "hp ''alpha'' = Some v_alpha" "hp ''V0'' = Some v_V0"
      "hp ''rho'' = Some v_rho"
    and alpha_range: "0 \<le> v_alpha" "v_alpha < 1"
  shows "\<exists>e. init N hp T0 = Inr e"
proof -
  define e0 where "e0 = \<lparr>T = T0, n = nat N, dt = T0 / of_int N,
       time_grid = linspace 0 T0 (nat N + 1),
       S0 = v_S0, kappa = v_kappa, nu = v_nu, theta = v_theta, alpha = v_alpha,
       V0 = v_V0, rho = v_rho,
       frac = pow_value (T0 / of_int N) v_alpha / Gamma_fn (v_alpha + 2),
       frac2 = pow_value (T0 / of_int N) v_alpha / Gamma_fn (v_alpha + 1),
       frac_bar = 1 / Gamma_fn (1 - v_alpha),
       a_arr = [], b_arr = [], h_hat = None\<rparr>"
  have "0 \<le> alpha e0" using alpha_range by (simp add: e0_def)
  from fill_a_total [OF this] obtain e1 where e1: "fill_a e0 = Inr e1" ..
  have "alpha e1 = alpha e0" by (subst fill_a_Inr(1) [OF e1]) simp
  with \<open>0 \<le> alpha e0\<close> have "0 \<le> alpha e1" by simp
  from fill_b_total [OF this] obtain e2 where e2: "fill_b e1 = Inr e2" ..
  have dt: "0 \<le> T0 / of_int N" using N T_nonneg by simp
  have "init N hp T0 = Inr e2"
    using N alpha_range e1 e2
    by (simp add: init_def dict_getitem_def keys Let_def float_pow_nonneg [OF dt] gamma_def
        e0_def)
  then show ?thesis ..
qed

lemma upt_small:
  "[1..<Suc (Suc (Suc 0))] = [1, 2]" "[0..<Suc (Suc 0)] = [0, 1]"
  "[0..<Suc (Suc (Suc 0))] = [0, 1, 2]"
  by (simp_all add: upt_rec)

text \<open>
  The constructor on the notebook's parameters, two time steps and T = 1.
\<close>
lemma init_notebook: "init 2 notebook_params 1 = Inr notebook_engine"
  by (simp add: init_def notebook_params_def notebook_engine_def dict_getitem_def float_pow_def
      gamma_def Let_def fill_a_def fill_b_def zeros2_def a_def b_def setitem2_def getitem_def
      setitem_def linspace_def pow_value_def upt_small numeral_2_eq_2)

lemma notebook_engine_fields:
  "n notebook_engine = 2" "alpha notebook_engine = 3 / 5" "dt notebook_engine = 1 / 2"
  "T notebook_engine = 1"
  by (simp_all add: notebook_engine_def)

subsection \<open>The weight matrices\<close>

lemma a_entries:
  assumes "a e j k = Inr v" and "0 \<le> alpha e" and "j \<le> k" and "1 \<le> k"
  shows "v = frac e *
     (if j = 0 then (real k - 1) powr (alpha e + 1) - (real k - alpha e - 1) * real k powr alpha e
      else if j = k then 1
      else (real k + 1 - real j) powr (alpha e + 1) + (real k - 1 - real j) powr (alpha e + 1)
           - 2 * (real k - real j) powr (alpha e + 1))"
proof -
  have p1: "pow_value x (alpha e + 1) = x powr (alpha e + 1)" if "0 \<le> x" for x
    using that assms(2) by (simp add: pow_value_powr)
  have p2: "pow_value (real k) (alpha e) = real k powr alpha e"
    using assms(4) by (simp add: pow_value_powr_pos)
  show ?thesis
  proof (cases "j = 0")
    case True
    with assms(1) have "v = frac e * (pow_value (real k - 1) (alpha e + 1)
        - (real k - alpha e - 1) * pow_value (real k) (alpha e))"
      by (auto simp: a_def and_then_Inr_iff dest!: float_pow_Inr)
    with True assms(4) show ?thesis by (simp add: p1 p2)
  next
    case j0: False
    show ?thesis
    proof (cases "j = k")
      case True
      with j0 assms(1) show ?thesis by (simp add: a_def)
    next
      case False
      with j0 assms(1) have "v = frac e * (pow_value (real k + 1 - real j) (alpha e + 1)
          + pow_value (real k - 1 - real j) (alpha e + 1)
          - 2 * pow_value (real k - real j) (alpha e + 1))"
        by (auto simp: a_def and_then_Inr_iff dest!: float_pow_Inr)
      moreover have "j < k" using False assms(3) by simp
      ultimately show ?thesis using j0 False by (simp add: p1)
    qed
  qed
qed

lemma b_entries:
  assumes "b e j k = Inr v" and "0 < alpha e" and "j < k"
  shows "v = frac2 e * ((real k - real j) powr alpha e - (real k - real j - 1) powr alpha e)"
proof -
  from assms(1) have "v = frac2 e * (pow_value (real k - real j) (alpha e)
      - pow_value (real k - real j - 1) (alpha e))"
    by (auto simp: b_def and_then_Inr_iff dest!: float_pow_Inr)
  moreover have "pow_value (real k - real j) (alpha e) = (real k - real j) powr alpha e"
    using assms(2,3) by (simp add: pow_value_powr)
  moreover have "pow_value (real k - real j - 1) (alpha e) = (real k - real j - 1) powr alpha e"
    using assms(2,3) by (simp add: pow_value_powr)
  ultimately show ?thesis by simp
qed

lemma telescope_lessThan:
  fixes g :: "real \<Rightarrow> real"
  shows "(\<Sum>j<k. g (real k - real j) - g (real k - real j - 1)) = g (real k) - g 0"
proof (induction k)
  case 0
  show ?case by simp
next
  case (Suc k)
  have "(\<Sum>j<Suc k. g (real (Suc k) - real j) - g (real (Suc k) - real j - 1))
      = (g (real (Suc k)) - g (real k))
        + (\<Sum>j<k. g (real (Suc k) - real (Suc j)) - g (real (Suc k) - real (Suc j) - 1))"
    by (subst sum.lessThan_Suc_shift) simp
  also have "(\<Sum>j<k. g (real (Suc k) - real (Suc j)) - g (real (Suc k) - real (Suc j) - 1))
      = (\<Sum>j<k. g (real k - real j) - g (real k - real j - 1))"
    by simp
  finally show ?case by (simp add: Suc.IH)
qed

text \<open>
  Claim C2. For an engine built from (n, T, alpha) with alpha > 0 and T \<ge> 0, write
  C_a = dt^alpha / Gamma(alpha + 2) and C_b = dt^alpha / Gamma(alpha + 1). Then
  a[j,k] = C_a * ((k+1-j)^(alpha+1) + (k-1-j)^(alpha+1) - 2 (k-j)^(alpha+1)) for 0 < j < k,
  a[0,k] = C_a * ((k-1)^(alpha+1) - (k-alpha-1) k^alpha) and a[k,k] = C_a for k \<ge> 1,
  b[j,k] = C_b * ((k-j)^alpha - (k-j-1)^alpha) for 0 \<le> j < k, and every other entry of the
  (n+1) x (n+1) array \<open>a_\<close> and of the n x (n+1) array \<open>b_\<close> is zero. The powers are the
  real powers \<open>powr\<close>, for which \<open>0 powr y = 0\<close>.
\<close>
theorem weight_matrices:
  assumes built: "init N hp T0 = Inr e" and alpha_pos: "0 < alpha e" and T_nonneg: "0 \<le> T0"
  shows "(\<forall>k \<in> {1..n e}. \<forall>j \<in> {1..<k}.
            a_arr e ! j ! k = dt e powr alpha e / Gamma_fn (alpha e + 2) *
              ((real k + 1 - real j) powr (alpha e + 1) + (real k - 1 - real j) powr (alpha e + 1)
               - 2 * (real k - real j) powr (alpha e + 1)))
       \<and> (\<forall>k \<in> {1..n e}.
            a_arr e ! 0 ! k = dt e powr alpha e / Gamma_fn (alpha e + 2) *
              ((real k - 1) powr (alpha e + 1) - (real k - alpha e - 1) * real k powr alpha e))
       \<and> (\<forall>k \<in> {1..n e}. a_arr e ! k ! k = dt e powr alpha e / Gamma_fn (alpha e + 2))
       \<and> (\<forall>k \<in> {1..n e}. \<forall>j \<in> {0..<k}.
            b_arr e ! j ! k = dt e powr alpha e / Gamma_fn (alpha e + 1) *
              ((real k - real j) powr alpha e - (real k - real j - 1) powr alpha e))
       \<and> (\<forall>j \<in> {0..n e}. \<forall>k \<in> {0..n e}. k = 0 \<or> k < j \<longrightarrow> a_arr e ! j ! k = 0)
       \<and> (\<forall>j \<in> {0..<n e}. \<forall>k \<in> {0..n e}. k \<le> j \<longrightarrow> b_arr e ! j ! k = 0)
       \<and> map length (a_arr e) = replicate (n e + 1) (n e + 1)
       \<and> map length (b_arr e) = replicate (n e) (n e + 1)
       \<and> n e = nat N \<and> 1 \<le> N \<and> dt e = T0 / of_int N \<and> hp ''alpha'' = Some (alpha e)"
proof -
  note I = init_Inr [OF built]
  have dt_nonneg: "0 \<le> dt e" using I(1,2) T_nonneg by simp
  have C_a: "frac e = dt e powr alpha e / Gamma_fn (alpha e + 2)"
    and C_b: "frac2 e = dt e powr alpha e / Gamma_fn (alpha e + 1)"
    using I(5) dt_nonneg alpha_pos by (simp_all add: pow_value_powr)
  have A: "a_arr e ! j ! k = frac e *
     (if j = 0 then (real k - 1) powr (alpha e + 1) - (real k - alpha e - 1) * real k powr alpha e
      else if j = k then 1
      else (real k + 1 - real j) powr (alpha e + 1) + (real k - 1 - real j) powr (alpha e + 1)
           - 2 * (real k - real j) powr (alpha e + 1))"
    if "1 \<le> k" "k \<le> n e" "j \<le> k" for j k
    using a_entries [OF I(9) [OF that]] alpha_pos that by simp
  have B: "b_arr e ! j ! k =
      frac2 e * ((real k - real j) powr alpha e - (real k - real j - 1) powr alpha e)"
    if "1 \<le> k" "k \<le> n e" "j < k" for j k
    using b_entries [OF I(11) [OF that] alpha_pos that(3)] .
  show ?thesis
  proof (intro conjI ballI impI)
    fix k j assume "k \<in> {1..n e}" "j \<in> {1..<k}"
    then show "a_arr e ! j ! k = dt e powr alpha e / Gamma_fn (alpha e + 2) *
              ((real k + 1 - real j) powr (alpha e + 1) + (real k - 1 - real j) powr (alpha e + 1)
               - 2 * (real k - real j) powr (alpha e + 1))"
      using A [of k j] by (simp add: C_a)
  next
    fix k assume "k \<in> {1..n e}"
    then show "a_arr e ! 0 ! k = dt e powr alpha e / Gamma_fn (alpha e + 2) *
              ((real k - 1) powr (alpha e + 1) - (real k - alpha e - 1) * real k powr alpha e)"
      using A [of k 0] by (simp add: C_a)
  next
    fix k assume "k \<in> {1..n e}"
    then show "a_arr e ! k ! k = dt e powr alpha e / Gamma_fn (alpha e + 2)"
      using A [of k k] by (simp add: C_a)
  next
    fix k j assume "k \<in> {1..n e}" "j \<in> {0..<k}"
    then show "b_arr e ! j ! k = dt e powr alpha e / Gamma_fn (alpha e + 1) *
              ((real k - real j) powr alpha e - (real k - real j - 1) powr alpha e)"
      using B [of k j] by (simp add: C_b)
  next
    fix j k assume "j \<in> {0..n e}" "k \<in> {0..n e}" "k = 0 \<or> k < j"
    then show "a_arr e ! j ! k = 0" using I(10) [of j k] by simp
  next
    fix j k assume "j \<in> {0..<n e}" "k \<in> {0..n e}" "k \<le> j"
    then show "b_arr e ! j ! k = 0" using I(12) [of j k] by simp
  qed (use I in simp_all)
qed

text \<open>
  The hypotheses of C2 hold for the notebook's engine with two time steps; its entries
  a[1,2] and b[0,2].
\<close>
theorem weight_matrices_witness:
  "init 2 notebook_params 1 = Inr notebook_engine \<and> 0 < alpha notebook_engine \<and> (0::real) \<le> 1
   \<and> a_arr notebook_engine ! 1 ! 2 =
        dt notebook_engine powr alpha notebook_engine / Gamma_fn (alpha notebook_engine + 2) *
          ((real 2 + 1 - real 1) powr (alpha notebook_engine + 1)
           + (real 2 - 1 - real 1) powr (alpha notebook_engine + 1)
           - 2 * (real 2 - real 1) powr (alpha notebook_engine + 1))
   \<and> b_arr notebook_engine ! 0 ! 2 =
        dt notebook_engine powr alpha notebook_engine / Gamma_fn (alpha notebook_engine + 1) *
          ((real 2 - real 0) powr alpha notebook_engine
           - (real 2 - real 0 - 1) powr alpha notebook_engine)"
proof -
  have pos: "0 < alpha notebook_engine" by (simp add: notebook_engine_fields)
  have T1: "(0::real) \<le> 1" by simp
  have k: "(2::nat) \<in> {1..n notebook_engine}" by (simp add: notebook_engine_fields)
  have j1: "(1::nat) \<in> {1..<2}" and j0: "(0::nat) \<in> {0..<2}" by simp_all
  note W = weight_matrices [OF init_notebook pos T1]
  from W have "\<forall>k \<in> {1..n notebook_engine}. \<forall>j \<in> {1..<k}.
      a_arr notebook_engine ! j ! k =
        dt notebook_engine powr alpha notebook_engine / Gamma_fn (alpha notebook_engine + 2) *
          ((real k + 1 - real j) powr (alpha notebook_engine + 1)
           + (real k - 1 - real j) powr (alpha notebook_engine + 1)
           - 2 * (real k - real j) powr (alpha notebook_engine + 1))"
    by (rule conjunct1)
  from bspec [OF bspec [OF this k] j1] have A: "a_arr notebook_engine ! 1 ! 2 =
        dt notebook_engine powr alpha notebook_engine / Gamma_fn (alpha notebook_engine + 2) *
          ((real 2 + 1 - real 1) powr (alpha notebook_engine + 1)
           + (real 2 - 1 - real 1) powr (alpha notebook_engine + 1)
           - 2 * (real 2 - real 1) powr (alpha notebook_engine + 1))" .
  from W have "\<forall>k \<in> {1..n notebook_engine}. \<forall>j \<in> {0..<k}.
      b_arr notebook_engine ! j ! k =
        dt notebook_engine powr alpha notebook_engine / Gamma_fn (alpha notebook_engine + 1) *
          ((real k - real j) powr alpha notebook_engine
           - (real k - real j - 1) powr alpha notebook_engine)"
    by blast
  from bspec [OF bspec [OF this k] j0] have B: "b_arr notebook_engine ! 0 ! 2 =
        dt notebook_engine powr alpha notebook_engine / Gamma_fn (alpha notebook_engine + 1) *
          ((real 2 - real 0) powr alpha notebook_engine
           - (real 2 - real 0 - 1) powr alpha notebook_engine)" .
  from init_notebook pos T1 A B show ?thesis by blast
qed

text \<open>
  Claim C8. For every k from 1 to n, the diagonal weight a[k,k] is
  dt^alpha / Gamma(alpha + 2), and the predictor column sum of b[j,k] over j = 0..k-1
  telescopes to C_b * k^alpha with C_b = dt^alpha / Gamma(alpha + 1) (for engines built
  with alpha > 0 and T \<ge> 0).
\<close>
theorem weight_identities:
  assumes built: "init N hp T0 = Inr e" and alpha_pos: "0 < alpha e" and T_nonneg: "0 \<le> T0"
  shows "\<forall>k \<in> {1..n e}.
           a_arr e ! k ! k = dt e powr alpha e / Gamma_fn (alpha e + 2)
         \<and> (\<Sum>j<k. b_arr e ! j ! k) = dt e powr alpha e / Gamma_fn (alpha e + 1) * real k powr alpha e"
proof
  fix k assume "k \<in> {1..n e}"
  then have k: "1 \<le> k" "k \<le> n e" by simp_all
  note I = init_Inr [OF built]
  have dt_nonneg: "0 \<le> dt e" using I(1,2) T_nonneg by simp
  have C_a: "frac e = dt e powr alpha e / Gamma_fn (alpha e + 2)"
    and C_b: "frac2 e = dt e powr alpha e / Gamma_fn (alpha e + 1)"
    using I(5) dt_nonneg alpha_pos by (simp_all add: pow_value_powr)
  have diag: "a_arr e ! k ! k = dt e powr alpha e / Gamma_fn (alpha e + 2)"
    using a_entries [OF I(9) [OF k order_refl]] alpha_pos k by (simp add: C_a)
  have "(\<Sum>j<k. b_arr e ! j ! k)
      = (\<Sum>j<k. frac2 e * ((real k - real j) powr alpha e - (real k - real j - 1) powr alpha e))"
    by (rule sum.cong) (use b_entries [OF I(11) [OF k] alpha_pos] in simp_all)
  also have "\<dots> = frac2 e * (\<Sum>j<k. (real k - real j) powr alpha e - (real k - real j - 1) powr alpha e)"
    by (simp add: sum_distrib_left)
  also have "(\<Sum>j<k. (real k - real j) powr alpha e - (real k - real j - 1) powr alpha e)
      = real k powr alpha e - 0 powr alpha e"
    by (rule telescope_lessThan [of "\<lambda>x. x powr alpha e" k])
  finally have "(\<Sum>j<k. b_arr e ! j ! k)
      = dt e powr alpha e / Gamma_fn (alpha e + 1) * real k powr alpha e"
    by (simp add: C_b)
  with diag show "a_arr e ! k ! k = dt e powr alpha e / Gamma_fn (alpha e + 2)
         \<and> (\<Sum>j<k. b_arr e ! j ! k) = dt e powr alpha e / Gamma_fn (alpha e + 1) * real k powr alpha e"
    by simp
qed

text \<open>
  The hypotheses of C8 hold for the notebook's engine; its column k = 2.
\<close>
theorem weight_identities_witness:
  "init 2 notebook_params 1 = Inr notebook_engine \<and> 0 < alpha notebook_engine \<and> (0::real) \<le> 1
   \<and> a_arr notebook_engine ! 2 ! 2
       = dt notebook_engine powr alpha notebook_engine / Gamma_fn (alpha notebook_engine + 2)
   \<and> (\<Sum>j<2. b_arr notebook_engine ! j ! 2)
       = dt notebook_engine powr alpha notebook_engine / Gamma_fn (alpha notebook_engine + 1)
         * real 2 powr alpha notebook_engine"
proof -
  have pos: "0 < alpha notebook_engine" by (simp add: notebook_engine_fields)
  have T1: "(0::real) \<le> 1" by simp
  have k: "(2::nat) \<in> {1..n notebook_engine}" by (simp add: notebook_engine_fields)
  from bspec [OF weight_identities [OF init_notebook pos T1] k] init_notebook pos T1
  show ?thesis by blast
qed

subsection \<open>The Riccati kernel\<close>

text \<open>
  Claim C3. The Riccati kernel is the function
  F(a, x) = -1/2 (a^2 + i a) - (kappa - i a rho nu) x + 1/2 nu^2 x^2 of the complex numbers
  a and x and of the three parameters kappa, rho, nu of the instance. It returns a value
  and nothing else, and the value does not depend on the array \<open>h_hat\<close>, the only
  attribute that changes after construction.
\<close>
theorem riccati_kernel:
  "F e u x = - (1 / 2) * (u\<^sup>2 + \<i> * u)
             - (of_real (kappa e) - \<i> * u * of_real (rho e) * of_real (nu e)) * x
             + (1 / 2) * (of_real (nu e))\<^sup>2 * x\<^sup>2
   \<and> F (e\<lparr>h_hat := h\<rparr>) u x = F e u x"
  by (simp add: F_def power2_eq_square)

subsection \<open>The solver\<close>

lemma F_update [simp]:
  "F (e\<lparr>h_hat := h\<rparr>) u x = F e u x"
  by (simp add: F_def)

lemma h_hat_getitem_Some:
  "h_hat e = Some h \<Longrightarrow> j < length h \<Longrightarrow> h_hat_getitem e j = Inr (h ! j)"
  by (simp add: h_hat_getitem_def getitem_def)

lemma weighted_sum_loop:
  assumes "h_hat e = Some h"
    and "\<forall>j \<in> set js. j < length m \<and> k < length (m ! j) \<and> j < length h"
  shows "for_each js (\<lambda>j res.
           and_then (getitem2 m j k) (\<lambda>w.
           and_then (h_hat_getitem e j) (\<lambda>x.
           Inr (res + of_real w * F e u x)))) acc
         = Inr (acc + (\<Sum>j\<leftarrow>js. of_real (m ! j ! k) * F e u (h ! j)))"
  using assms(2)
proof (induction js arbitrary: acc)
  case Nil
  show ?case by simp
next
  case (Cons j js)
  then show ?case
    by (simp add: getitem2_in_range h_hat_getitem_Some [OF assms(1)] add.assoc)
qed

lemma h_P_value:
  assumes "h_hat e = Some h" and "map length (b_arr e) = replicate (n e) (n e + 1)"
    and "length h = n e + 1" and "k \<le> n e"
  shows "h_P e u k = Inr (\<Sum>j<k. of_real (b_arr e ! j ! k) * F e u (h ! j))"
proof -
  have "j < length (b_arr e) \<and> k < length (b_arr e ! j) \<and> j < length h" if "j < k" for j
    using shape_nth [OF assms(2), of j] that assms(3,4) by simp
  then have "\<forall>j \<in> set [0..<k]. j < length (b_arr e) \<and> k < length (b_arr e ! j) \<and> j < length h"
    by simp
  from weighted_sum_loop [OF assms(1) this, of u 0]
  show ?thesis
    by (simp add: h_P_def interv_sum_list_conv_sum_set_nat atLeast0LessThan)
qed

lemma sum_a_value:
  assumes "h_hat e = Some h" and "map length (a_arr e) = replicate (n e + 1) (n e + 1)"
    and "length h = n e + 1" and "k \<le> n e"
  shows "sum_a e u k = Inr (\<Sum>j<k. of_real (a_arr e ! j ! k) * F e u (h ! j))"
proof -
  have "j < length (a_arr e) \<and> k < length (a_arr e ! j) \<and> j < length h" if "j < k" for j
    using shape_nth [OF assms(2), of j] that assms(3,4) by simp
  then have "\<forall>j \<in> set [0..<k]. j < length (a_arr e) \<and> k < length (a_arr e ! j) \<and> j < length h"
    by simp
  from weighted_sum_loop [OF assms(1) this, of u 0]
  show ?thesis
    by (simp add: sum_a_def interv_sum_list_conv_sum_set_nat atLeast0LessThan)
qed

text \<open>
  The loop of \<open>fill_h\<close> up to step m: the recursion holds for the steps done so far.
\<close>
lemma fill_h_prefix:
  assumes A: "map length (a_arr e) = replicate (n e + 1) (n e + 1)"
    and B: "map length (b_arr e) = replicate (n e) (n e + 1)"
    and m: "m \<le> n e"
  shows "\<exists>h. for_each [1..<m + 1] (\<lambda>k s.
           and_then (h_P s u k) (\<lambda>v_h_P.
           and_then (sum_a s u k) (\<lambda>v_sum_a.
           and_then (getitem2 (a_arr s) k k) (\<lambda>akk.
           h_hat_setitem s k (v_sum_a + of_real akk * F s u v_h_P)))))
           (e\<lparr>h_hat := Some (replicate (n e + 1) 0)\<rparr>) = Inr (e\<lparr>h_hat := Some h\<rparr>)
         \<and> length h = n e + 1 \<and> h ! 0 = 0
         \<and> (\<forall>k. 1 \<le> k \<and> k \<le> m \<longrightarrow>
              h ! k = (\<Sum>j<k. of_real (a_arr e ! j ! k) * F e u (h ! j))
                      + of_real (a_arr e ! k ! k)
                        * F e u (\<Sum>j<k. of_real (b_arr e ! j ! k) * F e u (h ! j)))"
  using m
proof (induction m)
  case 0
  show ?case by (rule exI [of _ "replicate (n e + 1) 0"]) simp
next
  case (Suc m)
  let ?body = "\<lambda>k s.
           and_then (h_P s u k) (\<lambda>v_h_P.
           and_then (sum_a s u k) (\<lambda>v_sum_a.
           and_then (getitem2 (a_arr s) k k) (\<lambda>akk.
           h_hat_setitem s k (v_sum_a + of_real akk * F s u v_h_P))))"
  let ?rhs = "\<lambda>h k. (\<Sum>j<k. of_real (a_arr e ! j ! k) * F e u (h ! j))
                      + of_real (a_arr e ! k ! k)
                        * F e u (\<Sum>j<k. of_real (b_arr e ! j ! k) * F e u (h ! j))"
  from Suc obtain h where run: "for_each [1..<m + 1] ?body
        (e\<lparr>h_hat := Some (replicate (n e + 1) 0)\<rparr>) = Inr (e\<lparr>h_hat := Some h\<rparr>)"
    and len: "length h = n e + 1" and h0: "h ! 0 = 0"
    and eqs: "\<forall>k. 1 \<le> k \<and> k \<le> m \<longrightarrow> h ! k = ?rhs h k"
    by auto
  let ?s = "e\<lparr>h_hat := Some h\<rparr>"
  let ?k = "Suc m"
  have k: "?k \<le> n e" using Suc.prems .
  have hP: "h_P ?s u ?k = Inr (\<Sum>j<?k. of_real (b_arr e ! j ! ?k) * F e u (h ! j))"
    using h_P_value [of ?s h ?k u] B len k by simp
  have sa: "sum_a ?s u ?k = Inr (\<Sum>j<?k. of_real (a_arr e ! j ! ?k) * F e u (h ! j))"
    using sum_a_value [of ?s h ?k u] A len k by simp
  have akk: "getitem2 (a_arr e) ?k ?k = Inr (a_arr e ! ?k ! ?k)"
    using shape_nth [OF A, of ?k] k by (simp add: getitem2_in_range)
  define h' where "h' = h[?k := ?rhs h ?k]"
  have step: "?body ?k ?s = Inr (e\<lparr>h_hat := Some h'\<rparr>)"
    using len k by (simp add: hP sa akk h_hat_setitem_def setitem_def h'_def)
  have "[1..<Suc m + 1] = [1..<m + 1] @ [?k]" by simp
  then have "for_each [1..<Suc m + 1] ?body (e\<lparr>h_hat := Some (replicate (n e + 1) 0)\<rparr>)
      = Inr (e\<lparr>h_hat := Some h'\<rparr>)"
    by (simp only: for_each_append run and_then.simps for_each.simps step)
  moreover have "length h' = n e + 1" using len by (simp add: h'_def)
  moreover have "h' ! 0 = 0" using h0 by (simp add: h'_def)
  moreover have "h' ! k = ?rhs h' k" if "1 \<le> k \<and> k \<le> Suc m" for k
  proof -
    have same: "h' ! j = h ! j" if "j < ?k" for j
      using that by (simp add: h'_def)
    have rhs: "?rhs h' k = ?rhs h k"
      using that by (simp add: same)
    show ?thesis
    proof (cases "k = ?k")
      case True
      then show ?thesis using rhs len k by (simp add: h'_def)
    next
      case False
      with that have "k \<le> m" by simp
      with that eqs have "h ! k = ?rhs h k" by blast
      with False that rhs show ?thesis by (simp add: same)
    qed
  qed
  ultimately show ?case by blast
qed

lemma fill_h_result:
  assumes A: "map length (a_arr e) = replicate (n e + 1) (n e + 1)"
    and B: "map length (b_arr e) = replicate (n e) (n e + 1)"
  shows "\<exists>h. fill_h e u = Inr (e\<lparr>h_hat := Some h\<rparr>)
         \<and> length h = n e + 1 \<and> h ! 0 = 0
         \<and> (\<forall>k. 1 \<le> k \<and> k \<le> n e \<longrightarrow>
              h ! k = (\<Sum>j<k. of_real (a_arr e ! j ! k) * F e u (h ! j))
                      + of_real (a_arr e ! k ! k)
                        * F e u (\<Sum>j<k. of_real (b_arr e ! j ! k) * F e u (h ! j)))"
  using fill_h_prefix [OF A B order_refl, of u] by (simp add: fill_h_def)

text \<open>
  Claim C1. For every complex Fourier argument u and every built engine, whatever
  \<open>h_hat\<close> held before, the solver \<open>fill_h\<close> returns and leaves an array h of length n + 1
  with, for k = 1..n: h_P(k) is the sum over j = 0..k-1 of b[j,k] * F(u, h[j]), sum_a(k) is
  the sum over j = 0..k-1 of a[j,k] * F(u, h[j]), and h[k] = sum_a(k) + a[k,k] * F(u, h_P(k)).
  The right-hand side of step k reads h[0], ..., h[k-1] only.
\<close>
theorem fractional_riccati_solver:
  assumes built: "init N hp T0 = Inr e"
  shows "\<exists>h. fill_h (e\<lparr>h_hat := previous\<rparr>) u = Inr (e\<lparr>h_hat := Some h\<rparr>)
         \<and> length h = n e + 1
         \<and> (\<forall>k \<in> {1..n e}.
              h_P (e\<lparr>h_hat := Some h\<rparr>) u k
                = Inr (\<Sum>j<k. of_real (b_arr e ! j ! k) * F e u (h ! j))
              \<and> sum_a (e\<lparr>h_hat := Some h\<rparr>) u k
                = Inr (\<Sum>j<k. of_real (a_arr e ! j ! k) * F e u (h ! j))
              \<and> h ! k = (\<Sum>j<k. of_real (a_arr e ! j ! k) * F e u (h ! j))
                        + of_real (a_arr e ! k ! k)
                          * F e u (\<Sum>j<k. of_real (b_arr e ! j ! k) * F e u (h ! j)))"
proof -
  note I = init_Inr [OF built]
  let ?e = "e\<lparr>h_hat := previous\<rparr>"
  have A: "map length (a_arr ?e) = replicate (n ?e + 1) (n ?e + 1)"
    and B: "map length (b_arr ?e) = replicate (n ?e) (n ?e + 1)"
    using I(7,8) by simp_all
  from fill_h_result [OF A B, of u] obtain h where
    run: "fill_h ?e u = Inr (e\<lparr>h_hat := Some h\<rparr>)" and len: "length h = n e + 1"
    and eqs: "\<forall>k. 1 \<le> k \<and> k \<le> n e \<longrightarrow>
              h ! k = (\<Sum>j<k. of_real (a_arr e ! j ! k) * F e u (h ! j))
                      + of_real (a_arr e ! k ! k)
                        * F e u (\<Sum>j<k. of_real (b_arr e ! j ! k) * F e u (h ! j))"
    by auto
  let ?s = "e\<lparr>h_hat := Some h\<rparr>"
  have "h_P ?s u k = Inr (\<Sum>j<k. of_real (b_arr e ! j ! k) * F e u (h ! j))" if "k \<le> n e" for k
    using h_P_value [of ?s h k u] I(8) len that by simp
  moreover
  have "sum_a ?s u k = Inr (\<Sum>j<k. of_real (a_arr e ! j ! k) * F e u (h ! j))" if "k \<le> n e" for k
    using sum_a_value [of ?s h k u] I(7) len that by simp
  ultimately show ?thesis
    using run len eqs by (intro exI [of _ h]) simp
qed

text \<open>
  The solver on the notebook's engine at u = 1 - i/2; step k = 2.
\<close>
theorem fractional_riccati_solver_witness:
  "init 2 notebook_params 1 = Inr notebook_engine
   \<and> (\<exists>h. fill_h (notebook_engine\<lparr>h_hat := None\<rparr>) (Complex 1 (- 1 / 2))
            = Inr (notebook_engine\<lparr>h_hat := Some h\<rparr>)
          \<and> length h = n notebook_engine + 1
          \<and> h ! 2 = (\<Sum>j<2. of_real (a_arr notebook_engine ! j ! 2)
                          * F notebook_engine (Complex 1 (- 1 / 2)) (h ! j))
                    + of_real (a_arr notebook_engine ! 2 ! 2)
                      * F notebook_engine (Complex 1 (- 1 / 2))
                          (\<Sum>j<2. of_real (b_arr notebook_engine ! j ! 2)
                             * F notebook_engine (Complex 1 (- 1 / 2)) (h ! j)))"
proof -
  have k: "(2::nat) \<in> {1..n notebook_engine}" by (simp add: notebook_engine_fields)
  from fractional_riccati_solver [OF init_notebook, of None "Complex 1 (- 1 / 2)"]
  obtain h where h: "fill_h (notebook_engine\<lparr>h_hat := None\<rparr>) (Complex 1 (- 1 / 2))
            = Inr (notebook_engine\<lparr>h_hat := Some h\<rparr>)"
      "length h = n notebook_engine + 1"
      "\<forall>k \<in> {1..n notebook_engine}.
          h_P (notebook_engine\<lparr>h_hat := Some h\<rparr>) (Complex 1 (- 1 / 2)) k
                = Inr (\<Sum>j<k. of_real (b_arr notebook_engine ! j ! k)
                         * F notebook_engine (Complex 1 (- 1 / 2)) (h ! j))
              \<and> sum_a (notebook_engine\<lparr>h_hat := Some h\<rparr>) (Complex 1 (- 1 / 2)) k
                = Inr (\<Sum>j<k. of_real (a_arr notebook_engine ! j ! k)
                         * F notebook_engine (Complex 1 (- 1 / 2)) (h ! j))
              \<and> h ! k = (\<Sum>j<k. of_real (a_arr notebook_engine ! j ! k)
                           * F notebook_engine (Complex 1 (- 1 / 2)) (h ! j))
                        + of_real (a_arr notebook_engine ! k ! k)
                          * F notebook_engine (Complex 1 (- 1 / 2))
                              (\<Sum>j<k. of_real (b_arr notebook_engine ! j ! k)
                                 * F notebook_engine (Complex 1 (- 1 / 2)) (h ! j))"
    by blast
  from bspec [OF h(3) k] h(1,2) init_notebook show ?thesis by blast
qed

text \<open>
  Claim C7. For every complex Fourier argument and every built engine, the array that the
  solver leaves has h_hat[0] = 0.
\<close>
theorem initial_condition:
  assumes built: "init N hp T0 = Inr e"
  shows "\<exists>h. fill_h (e\<lparr>h_hat := previous\<rparr>) u = Inr (e\<lparr>h_hat := Some h\<rparr>)
           \<and> h_hat_getitem (e\<lparr>h_hat := Some h\<rparr>) 0 = Inr 0"
proof -
  note I = init_Inr [OF built]
  let ?e = "e\<lparr>h_hat := previous\<rparr>"
  have A: "map length (a_arr ?e) = replicate (n ?e + 1) (n ?e + 1)"
    and B: "map length (b_arr ?e) = replicate (n ?e) (n ?e + 1)"
    using I(7,8) by simp_all
  from fill_h_result [OF A B, of u] obtain h where
    "fill_h ?e u = Inr (e\<lparr>h_hat := Some h\<rparr>)" "length h = n e + 1" "h ! 0 = 0"
    by auto
  then show ?thesis
    by (intro exI [of _ h]) (simp add: h_hat_getitem_def getitem_def)
qed

text \<open>
  The solver on the notebook's engine at u = 1 - i/2.
\<close>
theorem initial_condition_witness:
  "init 2 notebook_params 1 = Inr notebook_engine
   \<and> (\<exists>h. fill_h (notebook_engine\<lparr>h_hat := None\<rparr>) (Complex 1 (- 1 / 2))
            = Inr (notebook_engine\<lparr>h_hat := Some h\<rparr>)
          \<and> h_hat_getitem (notebook_engine\<lparr>h_hat := Some h\<rparr>) 0 = Inr 0)"
  using initial_condition [OF init_notebook, of None "Complex 1 (- 1 / 2)"] init_notebook
  by blast

subsection \<open>The characteristic function\<close>

lemma linspace_length [simp]: "length (linspace start stop num) = num"
  by (simp add: linspace_def)

lemma linspace_nth:
  "i \<le> m \<Longrightarrow> linspace 0 stop (m + 1) ! i = real i * (stop / real m)"
  by (simp add: linspace_def nth_map_upt del: upt_Suc)

lemma trapz_equal_length:
  assumes "length y = length x"
  shows "trapz y x
       = Inr (\<Sum>i<length x - 1. of_real (x ! (i + 1) - x ! i) * (y ! i + y ! (i + 1)) / 2)"
proof -
  have "(\<Sum>i\<leftarrow>[0..<length x - 1].
          of_real (map (\<lambda>i. x ! (i + 1) - x ! i) [0..<length x - 1] ! i)
          * (map (\<lambda>i. y ! (i + 1) + y ! i) [0..<length x - 1] ! i) / 2)
      = (\<Sum>i<length x - 1. of_real (x ! (i + 1) - x ! i) * (y ! i + y ! (i + 1)) / 2)"
    unfolding interv_sum_list_conv_sum_set_nat
    by (rule sum.cong) (auto simp: add.commute simp del: upt_Suc)
  then show ?thesis
    using assms by (simp add: trapz_def Let_def del: upt_Suc)
qed

lemma fromiter_map:
  "\<forall>i \<in> set xs. g i = Inr (f i) \<Longrightarrow> fromiter xs g = Inr (map f xs)"
  by (induction xs) simp_all

lemma grid_point_le:
  assumes "0 \<le> T0" and "i \<le> m"
  shows "real i * (T0 / real m) \<le> T0"
proof (cases "m = 0")
  case True
  with assms show ?thesis by simp
next
  case False
  have "real i * (T0 / real m) = T0 * (real i / real m)" by simp
  also have "\<dots> \<le> T0 * 1"
    using assms False by (intro mult_left_mono) simp_all
  finally show ?thesis by simp
qed

lemma time_grid_built:
  assumes built: "init N hp T0 = Inr e" and T_nonneg: "0 \<le> T0"
  shows "length (time_grid e) = n e + 1"
    and "i \<le> n e \<Longrightarrow> time_grid e ! i = real i * (T e / real (n e))"
    and "i \<le> n e \<Longrightarrow> 0 \<le> T e - time_grid e ! i"
proof -
  note I = init_Inr [OF built]
  have tg: "time_grid e = linspace 0 T0 (n e + 1)" and Te: "T e = T0" using I(2) by simp_all
  show "length (time_grid e) = n e + 1" by (simp add: tg)
  show nth: "time_grid e ! i = real i * (T e / real (n e))" if "i \<le> n e"
    using that by (simp only: tg Te linspace_nth)
  show "0 \<le> T e - time_grid e ! i" if "i \<le> n e"
    using grid_point_le [OF T_nonneg that] by (simp add: nth [OF that] Te)
qed

lemma fractional_summands:
  assumes built: "init N hp T0 = Inr e" and alpha_lt: "alpha e < 1" and T_nonneg: "0 \<le> T0"
    and len: "length h = n e + 1"
  shows "fromiter [0..<n e] (\<lambda>i.
              and_then (getitem (time_grid e) i) (\<lambda>t0.
              and_then (np_power (T e - t0) (1 - alpha e)) (\<lambda>f0.
              and_then (getitem (time_grid e) (i + 1)) (\<lambda>t1.
              and_then (np_power (T e - t1) (1 - alpha e)) (\<lambda>f1.
              and_then (h_hat_getitem (e\<lparr>h_hat := Some h\<rparr>) i) (\<lambda>x.
              Inr (of_real (f0 - f1) * x)))))))
         = Inr (map (\<lambda>i. of_real ((T e - time_grid e ! i) powr (1 - alpha e)
                                   - (T e - time_grid e ! (i + 1)) powr (1 - alpha e)) * h ! i)
                  [0..<n e])"
proof (rule fromiter_map, rule ballI)
  note G = time_grid_built [OF built T_nonneg]
  have expo: "0 < 1 - alpha e" using alpha_lt by simp
  fix i assume "i \<in> set [0..<n e]"
  then have i: "i < n e" by simp
  then show "and_then (getitem (time_grid e) i) (\<lambda>t0.
              and_then (np_power (T e - t0) (1 - alpha e)) (\<lambda>f0.
              and_then (getitem (time_grid e) (i + 1)) (\<lambda>t1.
              and_then (np_power (T e - t1) (1 - alpha e)) (\<lambda>f1.
              and_then (h_hat_getitem (e\<lparr>h_hat := Some h\<rparr>) i) (\<lambda>x.
              Inr (of_real (f0 - f1) * x))))))
        = Inr (of_real ((T e - time_grid e ! i) powr (1 - alpha e)
                        - (T e - time_grid e ! (i + 1)) powr (1 - alpha e)) * h ! i)"
    using G(3) [of i] G(3) [of "i + 1"] G(1) expo len
    by (simp add: getitem_def np_power_powr h_hat_getitem_def)
qed

lemma rHeston_char_function_returns:
  assumes built: "init N hp T0 = Inr e" and alpha_lt: "alpha e < 1" and T_nonneg: "0 \<le> T0"
  shows "\<exists>v h. rHeston_char_function (e\<lparr>h_hat := previous\<rparr>) u = Inr (v, e\<lparr>h_hat := Some h\<rparr>)"
proof -
  note I = init_Inr [OF built]
  let ?e = "e\<lparr>h_hat := previous\<rparr>"
  have A: "map length (a_arr ?e) = replicate (n ?e + 1) (n ?e + 1)"
    and B: "map length (b_arr ?e) = replicate (n ?e) (n ?e + 1)"
    using I(7,8) by simp_all
  from fill_h_result [OF A B, of u] obtain h where
    run: "fill_h ?e u = Inr (e\<lparr>h_hat := Some h\<rparr>)" and len: "length h = n e + 1"
    by auto
  have "length h = length (time_grid e)"
    using len time_grid_built(1) [OF built T_nonneg] by simp
  from trapz_equal_length [OF this] fractional_summands [OF assms len] alpha_lt
  show ?thesis
    by (auto simp add: rHeston_char_function_def run)
qed

text \<open>
  Claim C4. For every complex Fourier argument u, on an engine built with alpha < 1 and
  T \<ge> 0, \<open>rHeston_char_function\<close> returns exp(kappa * theta * integral + V0 * frac_integral),
  where h is the array the solver leaves, integral is the trapezoidal rule
  sum over i = 0..n-1 of (t[i+1] - t[i]) * (h[i] + h[i+1]) / 2 over the n + 1 grid points
  t[i] = i * T / n, and frac_integral is (1 / Gamma(1 - alpha)) * (1 / (1 - alpha)) times the
  sum over i = 0..n-1 of ((T - t[i])^(1-alpha) - (T - t[i+1])^(1-alpha)) * h[i], with the
  left-endpoint values h[i].
\<close>
theorem characteristic_function:
  assumes built: "init N hp T0 = Inr e" and alpha_lt: "alpha e < 1" and T_nonneg: "0 \<le> T0"
  shows "\<exists>h. fill_h (e\<lparr>h_hat := previous\<rparr>) u = Inr (e\<lparr>h_hat := Some h\<rparr>)
         \<and> rHeston_char_function (e\<lparr>h_hat := previous\<rparr>) u
           = Inr (exp (of_real (kappa e) * of_real (theta e)
                        * (\<Sum>i<n e. of_real (time_grid e ! (i + 1) - time_grid e ! i)
                                     * (h ! i + h ! (i + 1)) / 2)
                       + of_real (V0 e)
                         * (of_real (1 / Gamma_fn (1 - alpha e)) * of_real (1 / (1 - alpha e))
                            * (\<Sum>i<n e. of_real ((T e - time_grid e ! i) powr (1 - alpha e)
                                                 - (T e - time_grid e ! (i + 1)) powr (1 - alpha e))
                                         * h ! i))),
                  e\<lparr>h_hat := Some h\<rparr>)
         \<and> length h = n e + 1 \<and> length (time_grid e) = n e + 1
         \<and> (\<forall>i \<in> {0..n e}. time_grid e ! i = real i * (T e / real (n e)))"
proof -
  note I = init_Inr [OF built] and G = time_grid_built [OF built T_nonneg]
  let ?e = "e\<lparr>h_hat := previous\<rparr>"
  let ?tg = "time_grid e"
  have A: "map length (a_arr ?e) = replicate (n ?e + 1) (n ?e + 1)"
    and B: "map length (b_arr ?e) = replicate (n ?e) (n ?e + 1)"
    using I(7,8) by simp_all
  from fill_h_result [OF A B, of u] obtain h where
    run: "fill_h ?e u = Inr (e\<lparr>h_hat := Some h\<rparr>)" and len: "length h = n e + 1"
    by auto
  let ?s = "e\<lparr>h_hat := Some h\<rparr>"
  let ?summand = "\<lambda>i. of_real ((T e - ?tg ! i) powr (1 - alpha e)
                              - (T e - ?tg ! (i + 1)) powr (1 - alpha e)) * h ! i"
  have integral: "trapz h ?tg
      = Inr (\<Sum>i<n e. of_real (?tg ! (i + 1) - ?tg ! i) * (h ! i + h ! (i + 1)) / 2)"
    using trapz_equal_length [of h ?tg] len G(1) by simp
  note y = fractional_summands [OF assms len]
  have cf: "rHeston_char_function ?e u
      = Inr (exp (of_real (kappa e) * of_real (theta e)
                   * (\<Sum>i<n e. of_real (?tg ! (i + 1) - ?tg ! i) * (h ! i + h ! (i + 1)) / 2)
                  + of_real (V0 e)
                    * (of_real (frac_bar e) * (\<Sum>i<n e. ?summand i) / of_real (1 - alpha e))),
             ?s)"
    using alpha_lt y integral
    by (simp add: rHeston_char_function_def run interv_sum_list_conv_sum_set_nat
        atLeast0LessThan)
  have eq: "of_real (frac_bar e) * S / of_real (1 - alpha e)
      = of_real (1 / Gamma_fn (1 - alpha e)) * of_real (1 / (1 - alpha e)) * S" for S :: complex
    using I(5) by simp
  have cf': "rHeston_char_function ?e u
      = Inr (exp (of_real (kappa e) * of_real (theta e)
                   * (\<Sum>i<n e. of_real (?tg ! (i + 1) - ?tg ! i) * (h ! i + h ! (i + 1)) / 2)
                  + of_real (V0 e)
                    * (of_real (1 / Gamma_fn (1 - alpha e)) * of_real (1 / (1 - alpha e))
                       * (\<Sum>i<n e. ?summand i))),
             ?s)"
    by (simp only: cf eq)
  have grid: "\<forall>i \<in> {0..n e}. ?tg ! i = real i * (T e / real (n e))"
    using G(2) by simp
  from run cf' len G(1) grid show ?thesis by blast
qed

text \<open>
  The characteristic function of the notebook's engine at u = 1 - i/2.
\<close>
theorem characteristic_function_witness:
  "init 2 notebook_params 1 = Inr notebook_engine \<and> alpha notebook_engine < 1 \<and> (0::real) \<le> 1
   \<and> (\<exists>h. fill_h (notebook_engine\<lparr>h_hat := None\<rparr>) (Complex 1 (- 1 / 2))
            = Inr (notebook_engine\<lparr>h_hat := Some h\<rparr>)
         \<and> rHeston_char_function (notebook_engine\<lparr>h_hat := None\<rparr>) (Complex 1 (- 1 / 2))
           = Inr (exp (of_real (kappa notebook_engine) * of_real (theta notebook_engine)
                        * (\<Sum>i<n notebook_engine.
                             of_real (time_grid notebook_engine ! (i + 1)
                                      - time_grid notebook_engine ! i)
                             * (h ! i + h ! (i + 1)) / 2)
                       + of_real (V0 notebook_engine)
                         * (of_real (1 / Gamma_fn (1 - alpha notebook_engine))
                            * of_real (1 / (1 - alpha notebook_engine))
                            * (\<Sum>i<n notebook_engine.
                                 of_real ((T notebook_engine - time_grid notebook_engine ! i)
                                            powr (1 - alpha notebook_engine)
                                          - (T notebook_engine - time_grid notebook_engine ! (i + 1))
                                            powr (1 - alpha notebook_engine))
                                 * h ! i))),
                  notebook_engine\<lparr>h_hat := Some h\<rparr>))"
proof -
  have lt: "alpha notebook_engine < 1" by (simp add: notebook_engine_fields)
  have T1: "(0::real) \<le> 1" by simp
  from characteristic_function [OF init_notebook lt T1, of None "Complex 1 (- 1 / 2)"]
    init_notebook lt T1
  show ?thesis by blast
qed

subsection \<open>The price queries\<close>

text \<open>
  Claim C5 says that the rough price integrates over [0, upLim] for the caller's \<open>upLim\<close>,
  and the reference price up to infinity. \<open>rHeston_Call\<close> passes the limits (0, 5.) to
  \<open>quad\<close> and never reads \<open>upLim\<close>: two calls that differ in \<open>upLim\<close> only return the same
  result, and a quadrature routine that returns the upper limit it was given returns 5
  when \<open>upLim\<close> is 10. \<open>heston_Call\<close> has no cutoff parameter and passes the infinite
  limit, for which the same routine returns -1.
\<close>
theorem rHeston_Call_ignores_upLim:
  "rHeston_Call quad e k upLim = rHeston_Call quad e k upLim'
   \<and> rHeston_Call (\<lambda>lo hi. Return (case hi of Finite U \<Rightarrow> U | Infinity \<Rightarrow> - 1, 0)) e k 10
       = Inr (S0 e - sqrt (S0 e * (S0 e * exp k)) * 5 / pi, e)
   \<and> heston_Call (\<lambda>lo hi. Return (case hi of Finite U \<Rightarrow> U | Infinity \<Rightarrow> - 1, 0)) e k
       = Inr (S0 e - sqrt (S0 e * (S0 e * exp k)) * (- 1) / pi, e)"
  by (simp add: rHeston_Call_def heston_Call_def Let_def)

subsection \<open>The weights are never written again\<close>

lemma fill_h_frame:
  assumes "fill_h e u = Inr e'"
  shows "\<exists>h. e' = e\<lparr>h_hat := h\<rparr>"
proof -
  let ?P = "\<lambda>s. \<exists>h. s = e\<lparr>h_hat := h\<rparr>"
  from assms have "for_each [1..<n e + 1] (\<lambda>k s.
       and_then (h_P s u k) (\<lambda>v_h_P.
       and_then (sum_a s u k) (\<lambda>v_sum_a.
       and_then (getitem2 (a_arr s) k k) (\<lambda>akk.
       h_hat_setitem s k (v_sum_a + of_real akk * F s u v_h_P)))))
       (e\<lparr>h_hat := Some (replicate (n e + 1) 0)\<rparr>) = Inr e'"
    by (simp add: fill_h_def)
  then show ?thesis
  proof (rule for_each_invariant [where P = ?P])
    show "?P (e\<lparr>h_hat := Some (replicate (n e + 1) 0)\<rparr>)" by blast
  next
    fix k t t'
    assume "?P t" and "and_then (h_P t u k) (\<lambda>v_h_P.
       and_then (sum_a t u k) (\<lambda>v_sum_a.
       and_then (getitem2 (a_arr t) k k) (\<lambda>akk.
       h_hat_setitem t k (v_sum_a + of_real akk * F t u v_h_P)))) = Inr t'"
    then obtain h0 v where t: "t = e\<lparr>h_hat := h0\<rparr>" and "h_hat_setitem t k v = Inr t'"
      by (auto simp: and_then_Inr_iff)
    then obtain h1 where "t' = t\<lparr>h_hat := Some h1\<rparr>"
      by (auto simp: h_hat_setitem_def and_then_Inr_iff split: option.splits)
    with t have "t' = e\<lparr>h_hat := Some h1\<rparr>" by simp
    then show "?P t'" by blast
  qed
qed

lemma rHeston_char_function_frame:
  assumes "rHeston_char_function e u = Inr (v, e')"
  shows "\<exists>h. e' = e\<lparr>h_hat := h\<rparr>"
proof -
  from assms obtain s where "fill_h e u = Inr s" and "e' = s"
    by (auto simp: rHeston_char_function_def and_then_Inr_iff split: option.splits if_splits)
  with fill_h_frame show ?thesis by blast
qed

lemma rHeston_Call_frame:
  assumes "rHeston_Call quad e k upLim = Inr (v, e')"
  shows "\<exists>h. e' = e\<lparr>h_hat := h\<rparr>"
proof -
  let ?P = "\<lambda>s. \<exists>h. s = e\<lparr>h_hat := h\<rparr>"
  let ?func = "\<lambda>x s.
            and_then (rHeston_char_function s (of_real x - 0.5 * \<i>)) (\<lambda>(phi, s').
            Inr (Re (exp (- \<i> * of_real x * of_real k) * phi) / (x\<^sup>2 + 0.25), s'))"
  from assms obtain integ where run: "run_quad (quad 0 (Finite 5)) ?func e = Inr (integ, e')"
    by (auto simp: rHeston_Call_def Let_def and_then_Inr_iff)
  have "?P e" by (rule exI [of _ "h_hat e"]) simp
  with run show ?thesis
  proof (rule run_quad_invariant [where P = ?P])
    fix x t y t'
    assume "?P t" and "?func x t = Inr (y, t')"
    then obtain h0 phi where t: "t = e\<lparr>h_hat := h0\<rparr>"
      and "rHeston_char_function t (of_real x - 0.5 * \<i>) = Inr (phi, t')"
      by (auto simp: and_then_Inr_iff)
    from rHeston_char_function_frame [OF this(2)] obtain h1 where "t' = t\<lparr>h_hat := h1\<rparr>" ..
    with t have "t' = e\<lparr>h_hat := h1\<rparr>" by simp
    then show "?P t'" by blast
  qed
qed

lemma heston_Call_frame:
  assumes "heston_Call quad e k = Inr (v, e')"
  shows "e' = e"
proof -
  let ?func = "\<lambda>x s.
            and_then (heston_char_function s (of_real x - 0.5 * \<i>)) (\<lambda>phi.
            Inr (Re (exp (- \<i> * of_real x * of_real k) * phi) / (x\<^sup>2 + 0.25), s))"
  from assms obtain integ where run: "run_quad (quad 0 Infinity) ?func e = Inr (integ, e')"
    by (auto simp: heston_Call_def Let_def and_then_Inr_iff)
  have "e = e" ..
  with run show ?thesis
    by (rule run_quad_invariant [where P = "\<lambda>s. s = e"]) (auto simp: and_then_Inr_iff)
qed

lemma perform_frame:
  assumes "perform quad c e = Inr e'"
  shows "\<exists>h. e' = e\<lparr>h_hat := h\<rparr>"
proof (cases c)
  case (Call_fill_h u)
  with assms show ?thesis by (simp add: fill_h_frame)
next
  case (Call_rHeston_char_function u)
  with assms show ?thesis
    by (auto simp: and_then_Inr_iff dest: rHeston_char_function_frame)
next
  case (Call_rHeston_Call k upLim)
  with assms show ?thesis
    by (auto simp: and_then_Inr_iff dest: rHeston_Call_frame)
next
  case (Call_heston_Call k)
  with assms have "e' = e"
    by (auto simp: and_then_Inr_iff dest: heston_Call_frame)
  then show ?thesis by (intro exI [of _ "h_hat e"]) simp
qed

lemma rHeston_Call_one_node:
  assumes built: "init N hp T0 = Inr e" and alpha_lt: "alpha e < 1" and T_nonneg: "0 \<le> T0"
  shows "\<exists>v h. rHeston_Call (\<lambda>lo hi. Evaluate x (\<lambda>y. Return (y, 0)))
                  (e\<lparr>h_hat := previous\<rparr>) k upLim
                = Inr (v, e\<lparr>h_hat := Some h\<rparr>)"
proof -
  from rHeston_char_function_returns [OF assms, of previous "of_real x - 0.5 * \<i>"]
  obtain phi h where "rHeston_char_function (e\<lparr>h_hat := previous\<rparr>) (of_real x - 0.5 * \<i>)
      = Inr (phi, e\<lparr>h_hat := Some h\<rparr>)"
    by blast
  then show ?thesis
    by (auto simp add: rHeston_Call_def Let_def)
qed

text \<open>
  Claim C9. After any sequence of calls of the solver, the characteristic function and the
  two price queries that returns, the arrays \<open>a_\<close> and \<open>b_\<close> of the instance are the
  arrays it had before the first call: every entry of A and B keeps its value of
  construction time.
\<close>
theorem weights_never_mutated:
  assumes calls: "for_each cs (perform quad) e = Inr e'"
  shows "a_arr e' = a_arr e \<and> b_arr e' = b_arr e"
proof -
  have "\<exists>h. e' = e\<lparr>h_hat := h\<rparr>"
    using calls
  proof (rule for_each_invariant [where P = "\<lambda>s. \<exists>h. s = e\<lparr>h_hat := h\<rparr>"])
    show "\<exists>h. e = e\<lparr>h_hat := h\<rparr>" by (rule exI [of _ "h_hat e"]) simp
  next
    fix c t t'
    assume "\<exists>h. t = e\<lparr>h_hat := h\<rparr>" and "perform quad c t = Inr t'"
    then obtain h0 h1 where "t = e\<lparr>h_hat := h0\<rparr>" "t' = t\<lparr>h_hat := h1\<rparr>"
      using perform_frame by blast
    then have "t' = e\<lparr>h_hat := h1\<rparr>" by simp
    then show "\<exists>h. t' = e\<lparr>h_hat := h\<rparr>" ..
  qed
  then obtain h where "e' = e\<lparr>h_hat := h\<rparr>" ..
  then show ?thesis by simp
qed

text \<open>
  Three calls on the notebook's engine, with a quadrature routine that evaluates the
  integrand once.
\<close>
theorem weights_never_mutated_witness:
  "\<exists>e'. for_each
          [Call_fill_h (Complex 1 (- 1 / 2)),
           Call_rHeston_char_function (Complex 2 (- 1 / 2)),
           Call_rHeston_Call (- 1 / 10) 5]
          (perform (\<lambda>lo hi. Evaluate 1 (\<lambda>y. Return (y, 0)))) notebook_engine = Inr e'
        \<and> a_arr e' = a_arr notebook_engine \<and> b_arr e' = b_arr notebook_engine"
proof -
  let ?E = notebook_engine
  have lt: "alpha ?E < 1" by (simp add: notebook_engine_fields)
  have T1: "(0::real) \<le> 1" by simp
  note I = init_Inr [OF init_notebook]
  have E: "?E = ?E\<lparr>h_hat := None\<rparr>" by (simp add: notebook_engine_def)
  from fill_h_result [OF I(7,8), of "Complex 1 (- 1 / 2)"]
  obtain h1 where s1: "fill_h ?E (Complex 1 (- 1 / 2)) = Inr (?E\<lparr>h_hat := Some h1\<rparr>)"
    by blast
  from rHeston_char_function_returns [OF init_notebook lt T1, of "Some h1" "Complex 2 (- 1 / 2)"]
  obtain v2 h2 where s2: "rHeston_char_function (?E\<lparr>h_hat := Some h1\<rparr>) (Complex 2 (- 1 / 2))
      = Inr (v2, ?E\<lparr>h_hat := Some h2\<rparr>)"
    by blast
  from rHeston_Call_one_node [OF init_notebook lt T1, of 1 "Some h2" "- 1 / 10" 5]
  obtain v3 h3 where s3: "rHeston_Call (\<lambda>lo hi. Evaluate 1 (\<lambda>y. Return (y, 0)))
      (?E\<lparr>h_hat := Some h2\<rparr>) (- 1 / 10) 5 = Inr (v3, ?E\<lparr>h_hat := Some h3\<rparr>)"
    by blast
  have run: "for_each
          [Call_fill_h (Complex 1 (- 1 / 2)),
           Call_rHeston_char_function (Complex 2 (- 1 / 2)),
           Call_rHeston_Call (- 1 / 10) 5]
          (perform (\<lambda>lo hi. Evaluate 1 (\<lambda>y. Return (y, 0)))) ?E = Inr (?E\<lparr>h_hat := Some h3\<rparr>)"
    using s1 s2 s3 by simp
  from weights_never_mutated [OF run] run show ?thesis by blast
qed

subsection \<open>What the constructor checks\<close>

text \<open>
  Claim C6, as amended. The constructor validates nothing and has no InvalidParameter
  error. With nbTimeSteps = 0 it raises ZeroDivisionError, and with every nbTimeSteps < 1
  it ends in an exception (not in one of the markers of this development). With
  nbTimeSteps \<ge> 1, T \<ge> 0, the seven keys present and 0 \<le> alpha < 1 it returns an instance
  that holds the given parameters, whatever S0, V0, rho, kappa, theta and nu are.
\<close>
theorem construction_validates_nothing:
  "init 0 hp T0 = Inl ZeroDivisionError
   \<and> (N < 1 \<longrightarrow> (\<exists>err. init N hp T0 = Inl err \<and> err \<noteq> ComplexPower \<and> err \<noteq> NonFinite))
   \<and> (1 \<le> N \<and> 0 \<le> T0
        \<and> hp ''S0'' = Some v_S0 \<and> hp ''kappa'' = Some v_kappa \<and> hp ''nu'' = Some v_nu
        \<and> hp ''theta'' = Some v_theta \<and> hp ''alpha'' = Some v_alpha \<and> hp ''V0'' = Some v_V0
        \<and> hp ''rho'' = Some v_rho \<and> 0 \<le> v_alpha \<and> v_alpha < 1
      \<longrightarrow> (\<exists>e. init N hp T0 = Inr e
             \<and> n e = nat N \<and> T e = T0 \<and> S0 e = v_S0 \<and> kappa e = v_kappa \<and> nu e = v_nu
             \<and> theta e = v_theta \<and> alpha e = v_alpha \<and> V0 e = v_V0 \<and> rho e = v_rho))"
proof (intro conjI impI)
  show "init 0 hp T0 = Inl ZeroDivisionError" by (simp add: init_def)
next
  assume "N < 1"
  then consider "N = 0" | "N < - 1" | "N = - 1" by linarith
  then show "\<exists>err. init N hp T0 = Inl err \<and> err \<noteq> ComplexPower \<and> err \<noteq> NonFinite"
  proof cases
    case 1
    then show ?thesis by (simp add: init_def)
  next
    case 2
    then show ?thesis by (simp add: init_def)
  next
    case 3
    then show ?thesis
      by (simp add: init_def dict_getitem_def Let_def split: option.splits)
  qed
next
  assume H: "1 \<le> N \<and> 0 \<le> T0
        \<and> hp ''S0'' = Some v_S0 \<and> hp ''kappa'' = Some v_kappa \<and> hp ''nu'' = Some v_nu
        \<and> hp ''theta'' = Some v_theta \<and> hp ''alpha'' = Some v_alpha \<and> hp ''V0'' = Some v_V0
        \<and> hp ''rho'' = Some v_rho \<and> 0 \<le> v_alpha \<and> v_alpha < 1"
  then obtain e where e: "init N hp T0 = Inr e"
    using init_total [of N T0 hp v_S0 v_kappa v_nu v_theta v_alpha v_V0 v_rho] by blast
  from init_Inr(2,3) [OF e] H
  have "n e = nat N \<and> T e = T0 \<and> S0 e = v_S0 \<and> kappa e = v_kappa \<and> nu e = v_nu
             \<and> theta e = v_theta \<and> alpha e = v_alpha \<and> V0 e = v_V0 \<and> rho e = v_rho"
    by simp
  with e show "\<exists>e. init N hp T0 = Inr e
             \<and> n e = nat N \<and> T e = T0 \<and> S0 e = v_S0 \<and> kappa e = v_kappa \<and> nu e = v_nu
             \<and> theta e = v_theta \<and> alpha e = v_alpha \<and> V0 e = v_V0 \<and> rho e = v_rho"
    by blast
qed

text \<open>
  At concrete inputs: zero time steps and minus three time steps with the notebook's
  parameters, and two time steps with rho = 2, S0 = -1, V0 = 0.
\<close>
theorem construction_validates_nothing_witness:
  "init 0 notebook_params 1 = Inl ZeroDivisionError
   \<and> (- 3 :: int) < 1
   \<and> (\<exists>err. init (- 3) notebook_params 1 = Inl err \<and> err \<noteq> ComplexPower \<and> err \<noteq> NonFinite)
   \<and> (1::int) \<le> 2 \<and> (0::real) \<le> 1
   \<and> (notebook_params(''rho'' \<mapsto> 2, ''S0'' \<mapsto> - 1, ''V0'' \<mapsto> 0)) ''rho'' = Some 2
   \<and> (notebook_params(''rho'' \<mapsto> 2, ''S0'' \<mapsto> - 1, ''V0'' \<mapsto> 0)) ''alpha'' = Some (3 / 5)
   \<and> (\<exists>e. init 2 (notebook_params(''rho'' \<mapsto> 2, ''S0'' \<mapsto> - 1, ''V0'' \<mapsto> 0)) 1 = Inr e
          \<and> n e = 2 \<and> T e = 1 \<and> S0 e = - 1 \<and> alpha e = 3 / 5 \<and> V0 e = 0 \<and> rho e = 2)"
proof -
  let ?hp = "notebook_params(''rho'' \<mapsto> 2, ''S0'' \<mapsto> - 1, ''V0'' \<mapsto> 0)"
  have keys: "?hp ''S0'' = Some (- 1)" "?hp ''kappa'' = Some (3 / 10)" "?hp ''nu'' = Some (3 / 10)"
    "?hp ''theta'' = Some (1 / 50)" "?hp ''alpha'' = Some (3 / 5)" "?hp ''V0'' = Some 0"
    "?hp ''rho'' = Some 2"
    by (simp_all add: notebook_params_def)
  note C = construction_validates_nothing
  from C [of notebook_params 1]
  have zero: "init 0 notebook_params 1 = Inl ZeroDivisionError" by blast
  from C [of notebook_params 1 "- 3"]
  have negative: "\<exists>err. init (- 3) notebook_params 1 = Inl err \<and> err \<noteq> ComplexPower
      \<and> err \<noteq> NonFinite"
    by simp
  from C [of ?hp 1 2 "- 1" "3 / 10" "3 / 10" "1 / 50" "3 / 5" 0 2] keys
  have "\<exists>e. init 2 ?hp 1 = Inr e
          \<and> n e = nat 2 \<and> T e = 1 \<and> S0 e = - 1 \<and> kappa e = 3 / 10 \<and> nu e = 3 / 10
          \<and> theta e = 1 / 50 \<and> alpha e = 3 / 5 \<and> V0 e = 0 \<and> rho e = 2"
    by simp
  then have second: "\<exists>e. init 2 ?hp 1 = Inr e
          \<and> n e = 2 \<and> T e = 1 \<and> S0 e = - 1 \<and> alpha e = 3 / 5 \<and> V0 e = 0 \<and> rho e = 2"
    by auto
  from zero negative second keys show ?thesis by simp
qed

text \<open>
  Claim C6 as stated fails: with rho = 2, S0 = -1 and V0 = 0 the constructor returns an
  instance, the one of the notebook's parameters with these three attributes changed.
\<close>
theorem construction_counterexample:
  "init 2 (notebook_params(''rho'' \<mapsto> 2, ''S0'' \<mapsto> - 1, ''V0'' \<mapsto> 0)) 1
     = Inr (notebook_engine\<lparr>rho := 2, S0 := - 1, V0 := 0\<rparr>)"
  by (simp add: init_def notebook_params_def notebook_engine_def dict_getitem_def float_pow_def
      gamma_def Let_def fill_a_def fill_b_def zeros2_def a_def b_def setitem2_def getitem_def
      setitem_def linspace_def pow_value_def upt_small numeral_2_eq_2)

subsection \<open>The normal distribution function\<close>






lemma norm_cdf_zero: "norm_cdf 0 = 1 / 2"
  by (simp add: norm_cdf_def)

subsection \<open>The Black-Scholes price as a function of the volatility\<close>






subsection \<open>Bisection\<close>





subsection \<open>The implied volatility\<close>








end
